theory Spec2Isabelle
  imports Main "HOL-Library.Word" "HOL-Library.Sublist" "HOL-Library.Extended_Nat"
    "HOL-Library.Product_Lexorder"
begin

section \<open>JavaScript values\<close>

text \<open>
  The module under study is \<^verbatim>\<open>app/adapters/basic.js\<close>: the base adapter of the
  inspector and the three helper functions \<^verbatim>\<open>compareVersion\<close>,
  \<^verbatim>\<open>cleanupVersion\<close> and \<^verbatim>\<open>compare\<close>.

  A JavaScript string is a sequence of 16-bit code units. \<open>js\<close> turns an ASCII
  literal into such a sequence.
\<close>

type_synonym code_unit = "16 word"
type_synonym jsstring = "code_unit list"

definition js :: "string \<Rightarrow> jsstring" where
  "js s = map of_char s"

text \<open>
  The Number values that the version comparison can meet. The components handed to
  the unary \<^verbatim>\<open>+\<close> contain neither \<^verbatim>\<open>-\<close> nor \<^verbatim>\<open>.\<close>
  (lemmas \<open>regex_replace_no_dash\<close> and \<open>js_split_no_dot\<close> below), so no negative
  number, no negative zero and no fraction arises: a value is NaN, a non-negative
  integer that a double represents, or +Infinity.
\<close>

datatype jsnum = NaN | Fin nat | PosInf

text \<open>
  Messages are values as a transport delivers them: primitives, arrays and plain
  objects (own properties with distinct keys, in order). The payload of \<open>JNumber\<close> plays
  no part below: a number has no \<^verbatim>\<open>replace\<close> method, whatever its value.
\<close>

datatype jsval =
    JUndefined
  | JNull
  | JBoolean bool
  | JNumber jsnum
  | JString jsstring
  | JArray "jsval list"
  | JObject "(jsstring \<times> jsval) list"

datatype exn = TypeError | Thrown jsval

section \<open>Converting a string to a Number: the unary plus\<close>

text \<open>
  The Number value of a natural number: the nearest double, ties to the even
  significand, and +Infinity when the rounded value reaches \<open>2 ^ 1024\<close>. Integers below
  \<open>2 ^ 53\<close> are exact. This is the correctly rounded value, which engines compute for a
  literal of any length.
\<close>

fun bit_length :: "nat \<Rightarrow> nat" where
  "bit_length n = (if n = 0 then 0 else Suc (bit_length (n div 2)))"

declare bit_length.simps [simp del]

definition number_value :: "nat \<Rightarrow> jsnum" where
  "number_value n =
     (if n < 2 ^ 53 then Fin n
      else let e = bit_length n - 53;
               q = n div 2 ^ e;
               r = n mod 2 ^ e;
               q' = (if 2 ^ e < 2 * r \<or> (2 * r = 2 ^ e \<and> odd q) then q + 1 else q)
           in if 2 ^ 1024 \<le> q' * 2 ^ e then PosInf else Fin (q' * 2 ^ e))"

text \<open>
  The line terminators (LF, CR, U+2028, U+2029) and the white space of the grammar of
  numeric strings, which \<^verbatim>\<open>StringToNumber\<close> strips at both ends.
\<close>

definition is_line_terminator :: "code_unit \<Rightarrow> bool" where
  "is_line_terminator c \<longleftrightarrow> c = 0x0A \<or> c = 0x0D \<or> c = 0x2028 \<or> c = 0x2029"

definition is_white_space :: "code_unit \<Rightarrow> bool" where
  "is_white_space c \<longleftrightarrow>
     c = 0x09 \<or> c = 0x0B \<or> c = 0x0C \<or> c = 0x20 \<or> c = 0xA0 \<or> c = 0x1680 \<or>
     (0x2000 \<le> c \<and> c \<le> 0x200A) \<or> c = 0x202F \<or> c = 0x205F \<or> c = 0x3000 \<or>
     c = 0xFEFF"

definition is_str_white_space_char :: "code_unit \<Rightarrow> bool" where
  "is_str_white_space_char c \<longleftrightarrow> is_white_space c \<or> is_line_terminator c"

definition trim :: "jsstring \<Rightarrow> jsstring" where
  "trim s = rev (dropWhile is_str_white_space_char
                  (rev (dropWhile is_str_white_space_char s)))"

text \<open>Digits, in base 10 and in the bases 16, 8 and 2 of the prefixed literals.\<close>

definition is_digit :: "code_unit \<Rightarrow> bool" where
  "is_digit c \<longleftrightarrow> 0x30 \<le> c \<and> c \<le> 0x39"

definition is_hex_letter :: "code_unit \<Rightarrow> bool" where
  "is_hex_letter c \<longleftrightarrow> (0x61 \<le> c \<and> c \<le> 0x66) \<or> (0x41 \<le> c \<and> c \<le> 0x46)"

definition digit_value :: "code_unit \<Rightarrow> nat" where
  "digit_value c =
     (if is_digit c then unat c - 0x30
      else if 0x61 \<le> c \<and> c \<le> 0x66 then unat c - 0x61 + 10
      else unat c - 0x41 + 10)"

definition is_radix_digit :: "nat \<Rightarrow> code_unit \<Rightarrow> bool" where
  "is_radix_digit b c \<longleftrightarrow> (is_digit c \<or> is_hex_letter c) \<and> digit_value c < b"

definition digits_value :: "nat \<Rightarrow> jsstring \<Rightarrow> nat" where
  "digits_value b ds = foldl (\<lambda>acc c. acc * b + digit_value c) 0 ds"

text \<open>
  \<^verbatim>\<open>StrUnsignedDecimalLiteral\<close> without its forms that contain a dot or a minus
  sign: \<^verbatim>\<open>Infinity\<close>, or decimal digits with an optional exponent part
  (\<^verbatim>\<open>e\<close> or \<^verbatim>\<open>E\<close>, an optional \<^verbatim>\<open>+\<close>, decimal digits).
\<close>

definition str_unsigned_decimal_literal :: "jsstring \<Rightarrow> jsnum" where
  "str_unsigned_decimal_literal s =
     (if s = js ''Infinity'' then PosInf
      else let ds = takeWhile is_digit s; rest = dropWhile is_digit s in
        if ds = [] then NaN
        else (case rest of
                [] \<Rightarrow> number_value (digits_value 10 ds)
              | c # ex \<Rightarrow>
                  if c = 0x65 \<or> c = 0x45 then
                    (let ex' = (case ex of [] \<Rightarrow> [] | p # t \<Rightarrow> if p = 0x2B then t else ex) in
                     if ex' \<noteq> [] \<and> list_all is_digit ex'
                     then number_value (digits_value 10 ds * 10 ^ digits_value 10 ex')
                     else NaN)
                  else NaN))"

text \<open>\<^verbatim>\<open>StrDecimalLiteral\<close>: an optional \<^verbatim>\<open>+\<close> before the unsigned literal.\<close>

definition str_decimal_literal :: "jsstring \<Rightarrow> jsnum" where
  "str_decimal_literal s =
     (case s of
        [] \<Rightarrow> NaN
      | c # cs \<Rightarrow> if c = 0x2B then str_unsigned_decimal_literal cs
                  else str_unsigned_decimal_literal s)"

text \<open>
  \<^verbatim>\<open>StrNumericLiteral\<close>: the digits after \<^verbatim>\<open>0x\<close>, \<^verbatim>\<open>0o\<close> or \<^verbatim>\<open>0b\<close> (in
  either case of the letter) in their base, taking no sign, or a decimal literal.
\<close>

definition non_decimal_integer_literal :: "nat \<Rightarrow> jsstring \<Rightarrow> jsnum" where
  "non_decimal_integer_literal b ds =
     (if ds \<noteq> [] \<and> list_all (is_radix_digit b) ds
      then number_value (digits_value b ds) else NaN)"

definition str_numeric_literal :: "jsstring \<Rightarrow> jsnum" where
  "str_numeric_literal s =
     (case s of
        z # x # ds \<Rightarrow>
          if z = 0x30 \<and> (x = 0x78 \<or> x = 0x58) then non_decimal_integer_literal 16 ds
          else if z = 0x30 \<and> (x = 0x6F \<or> x = 0x4F) then non_decimal_integer_literal 8 ds
          else if z = 0x30 \<and> (x = 0x62 \<or> x = 0x42) then non_decimal_integer_literal 2 ds
          else str_decimal_literal s
      | _ \<Rightarrow> str_decimal_literal s)"

text \<open>
  \<^verbatim>\<open>StringToNumber\<close>: the empty string and a string of white space convert to 0,
  a string outside of the grammar to NaN.
\<close>

definition string_to_number :: "jsstring \<Rightarrow> jsnum" where
  "string_to_number s =
     (let t = trim s in if t = [] then Fin 0 else str_numeric_literal t)"

text \<open>
  \<^verbatim>\<open>+version1[i]\<close>: an index past the end of the array reads \<^verbatim>\<open>undefined\<close>, and
  \<^verbatim>\<open>+undefined\<close> is NaN.
\<close>

definition index :: "'a list \<Rightarrow> nat \<Rightarrow> 'a option" where
  "index xs i = (if i < length xs then Some (xs ! i) else None)"

definition unary_plus :: "jsstring option \<Rightarrow> jsnum" where
  "unary_plus v = (case v of None \<Rightarrow> NaN | Some s \<Rightarrow> string_to_number s)"

section \<open>The version comparator\<close>

text \<open>
  \<^verbatim>\<open>version.replace(/-.*/g, '')\<close>: every match of a \<^verbatim>\<open>-\<close> followed by the
  longest run of characters other than line terminators is deleted. The flag says
  whether the scan is inside a match.
\<close>

fun regex_replace :: "bool \<Rightarrow> jsstring \<Rightarrow> jsstring" where
  "regex_replace inside [] = []"
| "regex_replace inside (c # cs) =
     (if is_line_terminator c then c # regex_replace False cs
      else if inside \<or> c = 0x2D then regex_replace True cs
      else c # regex_replace False cs)"

text \<open>
  \<^verbatim>\<open>cleanupVersion\<close>. Only a string has a \<^verbatim>\<open>replace\<close> method: on any other
  value of the model the call throws a TypeError.
\<close>

definition cleanupVersion :: "jsval \<Rightarrow> exn + jsstring" where
  "cleanupVersion version =
     (case version of
        JString s \<Rightarrow> Inr (regex_replace False s)
      | _ \<Rightarrow> Inl TypeError)"

text \<open>\<^verbatim>\<open>s.split('.')\<close>: the pieces between the dots, \<open>[[]]\<close> for the empty string.\<close>

fun js_split :: "jsstring \<Rightarrow> jsstring list" where
  "js_split [] = [[]]"
| "js_split (c # cs) =
     (if c = 0x2E then [] # js_split cs
      else (case js_split cs of [] \<Rightarrow> [[c]] | p # ps \<Rightarrow> (c # p) # ps))"

text \<open>
  \<^verbatim>\<open>compare\<close>: \<open>None\<close> is the value \<^verbatim>\<open>undefined\<close> of the fall-through, reached
  when none of \<^verbatim>\<open>===\<close>, \<^verbatim>\<open><\<close> and \<^verbatim>\<open>>\<close> holds, that is when an operand is NaN.
\<close>

fun strict_equal :: "jsnum \<Rightarrow> jsnum \<Rightarrow> bool" where
  "strict_equal NaN _ = False"
| "strict_equal _ NaN = False"
| "strict_equal a b = (a = b)"

fun less_than :: "jsnum \<Rightarrow> jsnum \<Rightarrow> bool" where
  "less_than NaN _ = False"
| "less_than _ NaN = False"
| "less_than (Fin a) (Fin b) = (a < b)"
| "less_than (Fin a) PosInf = True"
| "less_than PosInf _ = False"

definition compare :: "jsnum \<Rightarrow> jsnum \<Rightarrow> int option" where
  "compare val number =
     (if strict_equal val number then Some 0
      else if less_than val number then Some (- 1)
      else if less_than number val then Some 1
      else None)"

function compareVersion_loop :: "jsstring list \<Rightarrow> jsstring list \<Rightarrow> nat \<Rightarrow> int option" where
  "compareVersion_loop version1 version2 i =
     (if i < 3 then
        (let compared = compare (unary_plus (index version1 i)) (unary_plus (index version2 i))
         in if compared \<noteq> Some 0 then compared
            else compareVersion_loop version1 version2 (i + 1))
      else Some 0)"
  by pat_completeness auto
termination
  by (relation "measure (\<lambda>(version1, version2, i). 3 - i)") auto

declare compareVersion_loop.simps [simp del]

definition compareVersion :: "jsval \<Rightarrow> jsval \<Rightarrow> exn + int option" where
  "compareVersion version1 version2 =
     (case cleanupVersion version1 of
        Inl e \<Rightarrow> Inl e
      | Inr v1 \<Rightarrow>
          (case cleanupVersion version2 of
             Inl e \<Rightarrow> Inl e
           | Inr v2 \<Rightarrow> Inr (compareVersion_loop (js_split v1) (js_split v2) 0)))"

section \<open>The adapter\<close>

text \<open>
  The configuration is imported from \<^verbatim>\<open>ember-inspector/config/environment\<close>, which
  is not part of the module: it is a parameter here. Both of its entries are arrays of
  version strings.
\<close>

record config =
  emberVersionsSupported :: "jsstring list"
  previousEmberVersionsSupported :: "jsstring list"

text \<open>
  A callback is the arrow function that \<^verbatim>\<open>_checkVersion\<close> registers, or a function
  of the environment. The latter is opaque: it has a number to tell it apart, and it returns
  or throws, as a function of the message.
\<close>

datatype callback = VersionListener | External nat "jsval \<Rightarrow> exn option"

datatype callback_name = Internal | Ext nat

fun name_of :: "callback \<Rightarrow> callback_name" where
  "name_of VersionListener = Internal"
| "name_of (External k f) = Ext k"

text \<open>
  The adapter holds \<^verbatim>\<open>_messageCallbacks\<close>. The trace is a history of what the
  adapter did, oldest first: each \<^verbatim>\<open>pushObject\<close>, each call of a callback by
  \<^verbatim>\<open>forEach\<close>, and each call of the hooks \<^verbatim>\<open>sendMessage\<close> and
  \<^verbatim>\<open>onVersionMismatch\<close>, whose bodies are empty in this class.
\<close>

datatype event =
    Registered callback_name
  | Invoked callback_name jsval
  | SendMessage jsval
  | OnVersionMismatch jsval

record adapter =
  messageCallbacks :: "callback list"
  trace :: "event list"

definition record_event :: "event \<Rightarrow> adapter \<Rightarrow> adapter" where
  "record_event ev a = a\<lparr>trace := trace a @ [ev]\<rparr>"

definition onMessageReceived :: "callback \<Rightarrow> adapter \<Rightarrow> adapter" where
  "onMessageReceived callback a =
     record_event (Registered (name_of callback))
       (a\<lparr>messageCallbacks := messageCallbacks a @ [callback]\<rparr>)"

definition sendMessage :: "jsval \<Rightarrow> adapter \<Rightarrow> adapter" where
  "sendMessage message a = record_event (SendMessage message) a"

definition onVersionMismatch :: "jsval \<Rightarrow> adapter \<Rightarrow> adapter" where
  "onVersionMismatch neededVersion a = record_event (OnVersionMismatch neededVersion) a"

text \<open>
  Reading a property, as the destructuring \<^verbatim>\<open>let { name, version } = message\<close>
  does: a TypeError on \<^verbatim>\<open>undefined\<close> and \<^verbatim>\<open>null\<close>; on an object the own
  property or \<^verbatim>\<open>undefined\<close>; on the other values \<^verbatim>\<open>undefined\<close>, as neither
  \<^verbatim>\<open>name\<close> nor \<^verbatim>\<open>version\<close> is a property of a primitive or of an array.
\<close>

definition get_property :: "jsval \<Rightarrow> jsstring \<Rightarrow> exn + jsval" where
  "get_property v p =
     (case v of
        JUndefined \<Rightarrow> Inl TypeError
      | JNull \<Rightarrow> Inl TypeError
      | JObject props \<Rightarrow> Inr (case map_of props p of None \<Rightarrow> JUndefined | Some x \<Rightarrow> x)
      | _ \<Rightarrow> Inr JUndefined)"

text \<open>An element of a configuration array; \<^verbatim>\<open>undefined\<close> outside of it.\<close>

definition element :: "jsstring list \<Rightarrow> int \<Rightarrow> jsval" where
  "element xs i =
     (if 0 \<le> i \<and> i < int (length xs) then JString (xs ! nat i) else JUndefined)"

fun truthy :: "jsval \<Rightarrow> bool" where
  "truthy JUndefined = False"
| "truthy JNull = False"
| "truthy (JBoolean b) = b"
| "truthy (JNumber n) = (n \<noteq> NaN \<and> n \<noteq> Fin 0)"
| "truthy (JString s) = (s \<noteq> [])"
| "truthy (JArray xs) = True"
| "truthy (JObject props) = True"

text \<open>
  The choice of \<^verbatim>\<open>neededVersion\<close> in the arrow function of
  \<^verbatim>\<open>_checkVersion\<close>: \<open>Inr None\<close> is the \<^verbatim>\<open>return\<close> of the last branch,
  \<open>Inl\<close> an exception of \<^verbatim>\<open>compareVersion\<close>. The index \<open>length - 1\<close> is -1 on an
  empty array and reads \<^verbatim>\<open>undefined\<close>. The operator \<^verbatim>\<open>&&\<close> tests
  \<^verbatim>\<open>tillVersion\<close> for truthiness and only then compares.
\<close>

definition neededVersion :: "config \<Rightarrow> jsval \<Rightarrow> exn + jsval option" where
  "neededVersion cfg version =
     (let previousVersions = previousEmberVersionsSupported cfg;
          fromVersion = element (emberVersionsSupported cfg) 0;
          tillVersion = element (emberVersionsSupported cfg) 1
      in case compareVersion version fromVersion of
           Inl e \<Rightarrow> Inl e
         | Inr c \<Rightarrow>
             if c = Some (- 1) then
               Inr (Some (element previousVersions (int (length previousVersions) - 1)))
             else if truthy tillVersion then
               (case compareVersion version tillVersion of
                  Inl e \<Rightarrow> Inl e
                | Inr c' \<Rightarrow> if c' \<noteq> Some (- 1) then Inr (Some tillVersion) else Inr None)
             else Inr None)"

text \<open>
  The arrow function of \<^verbatim>\<open>_checkVersion\<close>. \<open>Inl (e, a)\<close> is the exception \<open>e\<close>
  thrown in the state \<open>a\<close>, \<open>Inr a\<close> a normal return.
\<close>

definition versionListener :: "config \<Rightarrow> jsval \<Rightarrow> adapter \<Rightarrow> (exn \<times> adapter) + adapter" where
  "versionListener cfg message a =
     (case get_property message (js ''name'') of
        Inl e \<Rightarrow> Inl (e, a)
      | Inr name \<Rightarrow>
     (case get_property message (js ''version'') of
        Inl e \<Rightarrow> Inl (e, a)
      | Inr version \<Rightarrow>
          if name = JString (js ''version-mismatch'') then
            (case neededVersion cfg version of
               Inl e \<Rightarrow> Inl (e, a)
             | Inr None \<Rightarrow> Inr a
             | Inr (Some needed) \<Rightarrow> Inr (onVersionMismatch needed a))
          else Inr a))"

definition check_version_message :: jsval where
  "check_version_message =
     JObject [(js ''type'', JString (js ''check-version'')),
              (js ''from'', JString (js ''devtools''))]"

definition checkVersion :: "adapter \<Rightarrow> adapter" where
  "checkVersion a = sendMessage check_version_message (onMessageReceived VersionListener a)"

text \<open>\<^verbatim>\<open>init\<close>: the computed property \<^verbatim>\<open>_messageCallbacks\<close> starts as \<open>[]\<close>.\<close>

definition init :: adapter where
  "init = checkVersion \<lparr>messageCallbacks = [], trace = []\<rparr>"

definition call :: "config \<Rightarrow> callback \<Rightarrow> jsval \<Rightarrow> adapter \<Rightarrow> (exn \<times> adapter) + adapter" where
  "call cfg callback message a =
     (case callback of
        VersionListener \<Rightarrow> versionListener cfg message a
      | External k f \<Rightarrow> (case f message of None \<Rightarrow> Inr a | Some e \<Rightarrow> Inl (e, a)))"

text \<open>
  \<^verbatim>\<open>forEach\<close> with the body \<^verbatim>\<open>callback(message)\<close>: nothing catches an
  exception, so the first one ends the loop and leaves \<^verbatim>\<open>_messageReceived\<close>.
\<close>

fun forEach :: "config \<Rightarrow> callback list \<Rightarrow> jsval \<Rightarrow> adapter \<Rightarrow> (exn \<times> adapter) + adapter" where
  "forEach cfg [] message a = Inr a"
| "forEach cfg (callback # rest) message a =
     (case call cfg callback message (record_event (Invoked (name_of callback) message) a) of
        Inl err \<Rightarrow> Inl err
      | Inr a' \<Rightarrow> forEach cfg rest message a')"

definition messageReceived :: "config \<Rightarrow> jsval \<Rightarrow> adapter \<Rightarrow> (exn \<times> adapter) + adapter" where
  "messageReceived cfg message a = forEach cfg (messageCallbacks a) message a"

section \<open>Vocabulary of the properties\<close>

text \<open>The state in which a call ended, whether it returned or threw.\<close>

definition final :: "(exn \<times> adapter) + adapter \<Rightarrow> adapter" where
  "final r = (case r of Inl (e, a) \<Rightarrow> a | Inr a \<Rightarrow> a)"

definition threw :: "(exn \<times> adapter) + adapter \<Rightarrow> bool" where
  "threw r = (case r of Inl x \<Rightarrow> True | Inr a \<Rightarrow> False)"

text \<open>Whether a callback throws on a message (this does not depend on the adapter).\<close>

definition raises :: "config \<Rightarrow> callback \<Rightarrow> jsval \<Rightarrow> bool" where
  "raises cfg callback message =
     threw (call cfg callback message \<lparr>messageCallbacks = [], trace = []\<rparr>)"

text \<open>The callbacks that a trace shows as called, in order, with the message of each call.\<close>

fun invocations :: "event list \<Rightarrow> (callback_name \<times> jsval) list" where
  "invocations [] = []"
| "invocations (Invoked n m # evs) = (n, m) # invocations evs"
| "invocations (ev # evs) = invocations evs"

fun sent :: "event list \<Rightarrow> jsval list" where
  "sent [] = []"
| "sent (SendMessage m # evs) = m # sent evs"
| "sent (ev # evs) = sent evs"

fun mismatches :: "event list \<Rightarrow> jsval list" where
  "mismatches [] = []"
| "mismatches (OnVersionMismatch v # evs) = v # mismatches evs"
| "mismatches (ev # evs) = mismatches evs"

text \<open>
  A well-formed version string: three components of decimal digits, separated by dots,
  and then nothing or a suffix that starts with \<^verbatim>\<open>-\<close> and stays on its line.
  \<open>well_formed\<close> reads the string from the left, a run of digits at a time.
\<close>

definition is_component :: "jsstring \<Rightarrow> bool" where
  "is_component ds \<longleftrightarrow> ds \<noteq> [] \<and> list_all is_digit ds"

definition is_prerelease_suffix :: "jsstring \<Rightarrow> bool" where
  "is_prerelease_suffix s \<longleftrightarrow>
     (case s of [] \<Rightarrow> True | c # t \<Rightarrow> c = 0x2D \<and> list_all (\<lambda>x. \<not> is_line_terminator x) t)"

definition version_string :: "jsstring \<Rightarrow> jsstring \<Rightarrow> jsstring \<Rightarrow> jsstring \<Rightarrow> jsstring" where
  "version_string major minor patch sfx = major @ 0x2E # minor @ 0x2E # patch @ sfx"

definition starts_with_dot :: "jsstring \<Rightarrow> bool" where
  "starts_with_dot s \<longleftrightarrow> (case s of [] \<Rightarrow> False | c # t \<Rightarrow> c = 0x2E)"

definition major_of :: "jsstring \<Rightarrow> jsstring" where
  "major_of v = takeWhile is_digit v"

definition after_major :: "jsstring \<Rightarrow> jsstring" where
  "after_major v = tl (dropWhile is_digit v)"

definition minor_of :: "jsstring \<Rightarrow> jsstring" where
  "minor_of v = takeWhile is_digit (after_major v)"

definition after_minor :: "jsstring \<Rightarrow> jsstring" where
  "after_minor v = tl (dropWhile is_digit (after_major v))"

definition patch_of :: "jsstring \<Rightarrow> jsstring" where
  "patch_of v = takeWhile is_digit (after_minor v)"

definition suffix_of :: "jsstring \<Rightarrow> jsstring" where
  "suffix_of v = dropWhile is_digit (after_minor v)"

definition well_formed :: "jsstring \<Rightarrow> bool" where
  "well_formed v \<longleftrightarrow>
     major_of v \<noteq> [] \<and> starts_with_dot (dropWhile is_digit v) \<and>
     minor_of v \<noteq> [] \<and> starts_with_dot (dropWhile is_digit (after_major v)) \<and>
     patch_of v \<noteq> [] \<and> is_prerelease_suffix (suffix_of v)"

text \<open>
  Well-formedness in the words of claim C9, to be compared with \<open>well_formed\<close>: three
  components of decimal digits, and then nothing or any suffix that starts with
  \<^verbatim>\<open>-\<close>, line terminators included.
\<close>

definition claimed_well_formed :: "jsstring \<Rightarrow> bool" where
  "claimed_well_formed v \<longleftrightarrow>
     major_of v \<noteq> [] \<and> starts_with_dot (dropWhile is_digit v) \<and>
     minor_of v \<noteq> [] \<and> starts_with_dot (dropWhile is_digit (after_major v)) \<and>
     patch_of v \<noteq> [] \<and> (case suffix_of v of [] \<Rightarrow> True | c # t \<Rightarrow> c = 0x2D)"

text \<open>The integer that a component of decimal digits denotes.\<close>

definition component_value :: "jsstring \<Rightarrow> nat" where
  "component_value ds = digits_value 10 ds"

text \<open>
  The comparison of \<open>major.minor.patch\<close> triples of integers: the first unequal component
  decides, and equal triples give 0.
\<close>

definition sign_of :: "nat \<Rightarrow> nat \<Rightarrow> int" where
  "sign_of x y = (if x = y then 0 else if x < y then - 1 else 1)"

definition compare_triples :: "nat \<times> nat \<times> nat \<Rightarrow> nat \<times> nat \<times> nat \<Rightarrow> int" where
  "compare_triples a b =
     (case (a, b) of
        ((a1, a2, a3), (b1, b2, b3)) \<Rightarrow>
          if a1 \<noteq> b1 then sign_of a1 b1
          else if a2 \<noteq> b2 then sign_of a2 b2
          else sign_of a3 b3)"

text \<open>The three components of a well-formed version string, as integers.\<close>

definition components :: "jsstring \<Rightarrow> nat \<times> nat \<times> nat" where
  "components v =
     (component_value (major_of v), component_value (minor_of v), component_value (patch_of v))"

text \<open>
  The Number values other than NaN are linearly ordered: \<open>rank\<close> embeds them in the
  extended naturals, and a triple of ranks is compared from the left.
\<close>

fun rank :: "jsnum \<Rightarrow> enat" where
  "rank NaN = 0"
| "rank (Fin n) = enat n"
| "rank PosInf = \<infinity>"

definition order_sign :: "'a::linorder \<Rightarrow> 'a \<Rightarrow> int" where
  "order_sign x y = (if x = y then 0 else if x < y then - 1 else 1)"

definition version_key :: "jsstring \<Rightarrow> enat \<times> enat \<times> enat" where
  "version_key v =
     (rank (number_value (component_value (major_of v))),
      rank (number_value (component_value (minor_of v))),
      rank (number_value (component_value (patch_of v))))"

text \<open>Components that a double represents exactly.\<close>

definition exact :: "nat \<times> nat \<times> nat \<Rightarrow> bool" where
  "exact t = (case t of (x, y, z) \<Rightarrow> x < 2 ^ 53 \<and> y < 2 ^ 53 \<and> z < 2 ^ 53)"

text \<open>The two bounds of the supported window, and the newest of the previous versions.\<close>

definition fromVersion_of :: "config \<Rightarrow> jsval" where
  "fromVersion_of cfg = element (emberVersionsSupported cfg) 0"

definition tillVersion_of :: "config \<Rightarrow> jsval" where
  "tillVersion_of cfg = element (emberVersionsSupported cfg) 1"

definition last_element :: "jsstring list \<Rightarrow> jsval" where
  "last_element xs = (if xs = [] then JUndefined else JString (last xs))"

text \<open>
  The classification in the words of claim C2, to be compared with \<open>neededVersion\<close>: the
  upper bound counts as soon as it is defined. \<open>None\<close> stands for no call of
  \<^verbatim>\<open>onVersionMismatch\<close>.
\<close>

definition claimed_neededVersion :: "config \<Rightarrow> jsval \<Rightarrow> jsval option" where
  "claimed_neededVersion cfg version =
     (if compareVersion version (fromVersion_of cfg) = Inr (Some (- 1))
      then Some (last_element (previousEmberVersionsSupported cfg))
      else if tillVersion_of cfg \<noteq> JUndefined \<and>
              compareVersion version (tillVersion_of cfg) \<noteq> Inr (Some (- 1))
      then Some (tillVersion_of cfg)
      else None)"

text \<open>Messages, configurations and callbacks for the examples.\<close>

definition mismatch_message :: "jsstring \<Rightarrow> jsval" where
  "mismatch_message v =
     JObject [(js ''name'', JString (js ''version-mismatch'')), (js ''version'', JString v)]"

definition incomplete_mismatch_message :: jsval where
  "incomplete_mismatch_message = JObject [(js ''name'', JString (js ''version-mismatch''))]"

definition render_message :: jsval where
  "render_message = JObject [(js ''name'', JString (js ''view:render''))]"

definition sample_config :: config where
  "sample_config =
     \<lparr>emberVersionsSupported = [js ''2.0.0'', js ''3.0.0''],
      previousEmberVersionsSupported = [js ''1.8.0'', js ''1.9.0'']\<rparr>"

definition empty_till_config :: config where
  "empty_till_config =
     \<lparr>emberVersionsSupported = [js ''2.0.0'', js ''''],
      previousEmberVersionsSupported = [js ''1.8.0'', js ''1.9.0'']\<rparr>"

definition no_previous_config :: config where
  "no_previous_config =
     \<lparr>emberVersionsSupported = [js ''2.0.0'', js ''3.0.0''],
      previousEmberVersionsSupported = []\<rparr>"

definition returning :: "nat \<Rightarrow> callback" where
  "returning k = External k (\<lambda>message. None)"

definition throwing :: "nat \<Rightarrow> callback" where
  "throwing k = External k (\<lambda>message. Some (Thrown (JString (js ''boom''))))"

section \<open>Strings: the regular expression and the split\<close>

lemma regex_replace_outside:
  "0x2D \<notin> set xs \<Longrightarrow> regex_replace False (xs @ ys) = xs @ regex_replace False ys"
  by (induction xs) auto

lemma regex_replace_inside:
  "list_all (\<lambda>x. \<not> is_line_terminator x) t \<Longrightarrow> regex_replace True t = []"
  by (induction t) auto

lemma regex_replace_suffix:
  "is_prerelease_suffix s \<Longrightarrow> regex_replace False s = []"
  by (cases s) (auto simp: is_prerelease_suffix_def is_line_terminator_def regex_replace_inside)

lemma regex_replace_append_dash:
  "list_all (\<lambda>x. \<not> is_line_terminator x) s \<Longrightarrow>
   regex_replace b (v @ 0x2D # s) = regex_replace b v"
proof (induction v arbitrary: b)
  case Nil
  then show ?case by (simp add: is_line_terminator_def regex_replace_inside)
next
  case (Cons c v)
  then show ?case by simp
qed

lemma regex_replace_no_dash: "0x2D \<notin> set (regex_replace b s)"
  by (induction s arbitrary: b) (auto simp: is_line_terminator_def)

lemma js_split_not_Nil: "js_split s \<noteq> []"
  by (induction s) (auto split: list.splits)

lemma js_split_no_dot: "p \<in> set (js_split s) \<Longrightarrow> 0x2E \<notin> set p"
  by (induction s arbitrary: p) (auto split: list.splits if_splits)

lemma js_split_piece:
  "0x2E \<notin> set xs \<Longrightarrow> js_split (xs @ 0x2E # ys) = xs # js_split ys"
  by (induction xs) (auto split: list.splits)

lemma js_split_last: "0x2E \<notin> set xs \<Longrightarrow> js_split xs = [xs]"
  by (induction xs) (auto split: list.splits)

lemma digit_not_dash: "is_digit c \<Longrightarrow> c \<noteq> 0x2D"
  by (auto simp: is_digit_def)

lemma digit_not_dot: "is_digit c \<Longrightarrow> c \<noteq> 0x2E"
  by (auto simp: is_digit_def)

lemma component_no_dash: "is_component ds \<Longrightarrow> 0x2D \<notin> set ds"
  by (auto simp: is_component_def list_all_iff dest: digit_not_dash)

lemma component_no_dot: "is_component ds \<Longrightarrow> 0x2E \<notin> set ds"
  by (auto simp: is_component_def list_all_iff dest: digit_not_dot)

lemma split_version_string:
  assumes "is_component a" "is_component b" "is_component c" "is_prerelease_suffix s"
  shows "js_split (regex_replace False (version_string a b c s)) = [a, b, c]"
proof -
  have nd: "0x2D \<notin> set (a @ 0x2E # b @ 0x2E # c)"
    using assms by (auto dest: component_no_dash)
  have "version_string a b c s = (a @ 0x2E # b @ 0x2E # c) @ s"
    by (simp add: version_string_def)
  then have "regex_replace False (version_string a b c s) = a @ 0x2E # b @ 0x2E # c"
    using regex_replace_outside [OF nd, of s] regex_replace_suffix [OF assms(4)] by simp
  then show ?thesis
    using assms by (simp add: js_split_piece js_split_last component_no_dot)
qed

lemma digit_not_white: "is_digit c \<Longrightarrow> \<not> is_str_white_space_char c"
  by (auto simp: is_digit_def is_str_white_space_char_def is_white_space_def
      is_line_terminator_def word_le_nat_alt)

section \<open>Numbers: components of digits\<close>

lemma number_value_not_NaN: "number_value n \<noteq> NaN"
  by (simp add: number_value_def Let_def)

lemma number_value_exact: "n < 2 ^ 53 \<Longrightarrow> number_value n = Fin n"
  by (simp add: number_value_def)

lemma trim_component: "is_component ds \<Longrightarrow> trim ds = ds"
proof -
  assume c: "is_component ds"
  then obtain x xs where ds: "ds = x # xs" by (cases ds) (auto simp: is_component_def)
  from c have h: "\<not> is_str_white_space_char (hd ds)"
    by (auto simp: ds is_component_def digit_not_white)
  from c have "is_digit (last ds)"
    by (metis is_component_def last_in_set list_all_iff)
  then have l: "\<not> is_str_white_space_char (hd (rev ds))"
    using c by (simp add: hd_rev digit_not_white)
  have "dropWhile is_str_white_space_char ds = ds"
    using h ds by simp
  moreover have "dropWhile is_str_white_space_char (rev ds) = rev ds"
    using l ds by (cases "rev ds") auto
  ultimately show ?thesis by (simp add: trim_def)
qed

lemma Infinity_not_component: "\<not> is_component (js ''Infinity'')"
  by (simp add: is_component_def js_def is_digit_def)

lemma str_unsigned_component:
  "is_component ds \<Longrightarrow> str_unsigned_decimal_literal ds = number_value (digits_value 10 ds)"
proof -
  assume c: "is_component ds"
  then have t: "takeWhile is_digit ds = ds" and d: "dropWhile is_digit ds = []"
    by (auto simp: is_component_def list_all_iff)
  from c have "ds \<noteq> js ''Infinity''" using Infinity_not_component by auto
  with c show ?thesis
    by (simp add: str_unsigned_decimal_literal_def is_component_def Let_def t d)
qed

lemma str_decimal_component:
  "is_component ds \<Longrightarrow> str_decimal_literal ds = number_value (digits_value 10 ds)"
  by (cases ds)
     (auto simp: str_decimal_literal_def str_unsigned_component is_component_def is_digit_def)

lemma str_numeric_component:
  "is_component ds \<Longrightarrow> str_numeric_literal ds = number_value (digits_value 10 ds)"
proof -
  assume c: "is_component ds"
  have x: "\<And>z x r. ds = z # x # r \<Longrightarrow>
       x \<noteq> 0x78 \<and> x \<noteq> 0x58 \<and> x \<noteq> 0x6F \<and> x \<noteq> 0x4F \<and> x \<noteq> 0x62 \<and> x \<noteq> 0x42"
    using c by (auto simp: is_component_def is_digit_def)
  show ?thesis
    using x c by (auto simp: str_numeric_literal_def str_decimal_component split: list.splits)
qed

lemma string_to_number_component:
  "is_component ds \<Longrightarrow> string_to_number ds = number_value (component_value ds)"
  by (simp add: string_to_number_def trim_component str_numeric_component component_value_def)
     (simp add: is_component_def)

lemma compareVersion_loop_3:
  "compareVersion_loop [a1, a2, a3] [b1, b2, b3] 0 =
     (if compare (string_to_number a1) (string_to_number b1) \<noteq> Some 0
      then compare (string_to_number a1) (string_to_number b1)
      else if compare (string_to_number a2) (string_to_number b2) \<noteq> Some 0
      then compare (string_to_number a2) (string_to_number b2)
      else if compare (string_to_number a3) (string_to_number b3) \<noteq> Some 0
      then compare (string_to_number a3) (string_to_number b3)
      else Some 0)"
proof -
  have 3: "compareVersion_loop [a1, a2, a3] [b1, b2, b3] (Suc (Suc (Suc 0))) = Some 0"
    by (subst compareVersion_loop.simps) simp
  have 2: "compareVersion_loop [a1, a2, a3] [b1, b2, b3] (Suc (Suc 0)) =
     (if compare (string_to_number a3) (string_to_number b3) \<noteq> Some 0
      then compare (string_to_number a3) (string_to_number b3) else Some 0)"
    by (subst compareVersion_loop.simps) (simp add: 3 index_def unary_plus_def)
  have 1: "compareVersion_loop [a1, a2, a3] [b1, b2, b3] (Suc 0) =
     (if compare (string_to_number a2) (string_to_number b2) \<noteq> Some 0
      then compare (string_to_number a2) (string_to_number b2)
      else compareVersion_loop [a1, a2, a3] [b1, b2, b3] (Suc (Suc 0)))"
    by (subst compareVersion_loop.simps) (simp add: index_def unary_plus_def)
  have 0: "compareVersion_loop [a1, a2, a3] [b1, b2, b3] 0 =
     (if compare (string_to_number a1) (string_to_number b1) \<noteq> Some 0
      then compare (string_to_number a1) (string_to_number b1)
      else compareVersion_loop [a1, a2, a3] [b1, b2, b3] (Suc 0))"
    by (subst compareVersion_loop.simps) (simp add: index_def unary_plus_def)
  show ?thesis by (simp only: 0 1 2)
qed

lemma compare_rank:
  "x \<noteq> NaN \<Longrightarrow> y \<noteq> NaN \<Longrightarrow> compare x y = Some (order_sign (rank x) (rank y))"
  by (cases x; cases y) (auto simp: compare_def order_sign_def)

lemma order_sign_triple:
  "(if order_sign x1 y1 \<noteq> 0 then order_sign x1 y1
    else if order_sign x2 y2 \<noteq> 0 then order_sign x2 y2
    else order_sign x3 y3) = order_sign (x1, x2, x3) (y1, y2, y3)"
  by (auto simp: order_sign_def)

lemma order_sign_antisym: "order_sign y x = - order_sign x y"
  by (auto simp: order_sign_def)

lemma order_sign_trans:
  "order_sign x y = r \<Longrightarrow> order_sign y z = r \<Longrightarrow> order_sign x z = r"
  by (auto simp: order_sign_def split: if_splits)

lemma order_sign_range: "order_sign x y \<in> {- 1, 0, 1}"
  by (auto simp: order_sign_def)

section \<open>Well-formed version strings\<close>

lemma well_formed_parts:
  assumes "well_formed v"
  shows "v = version_string (major_of v) (minor_of v) (patch_of v) (suffix_of v)"
    and "is_component (major_of v)" and "is_component (minor_of v)"
    and "is_component (patch_of v)" and "is_prerelease_suffix (suffix_of v)"
proof -
  obtain r1 where r1: "dropWhile is_digit v = 0x2E # r1"
    using assms by (auto simp: well_formed_def starts_with_dot_def split: list.splits)
  then have am: "after_major v = r1" by (simp add: after_major_def)
  obtain r2 where r2: "dropWhile is_digit r1 = 0x2E # r2"
    using assms am by (auto simp: well_formed_def starts_with_dot_def split: list.splits)
  then have an: "after_minor v = r2" by (simp add: after_minor_def am)
  have "v = takeWhile is_digit v @ dropWhile is_digit v" by simp
  also have "\<dots> = major_of v @ 0x2E # r1" by (simp add: r1 major_of_def)
  also have "r1 = takeWhile is_digit r1 @ dropWhile is_digit r1" by simp
  also have "\<dots> = minor_of v @ 0x2E # r2" by (simp add: r2 minor_of_def am)
  also have "r2 = takeWhile is_digit r2 @ dropWhile is_digit r2" by simp
  also have "\<dots> = patch_of v @ suffix_of v" by (simp add: patch_of_def suffix_of_def an)
  finally show "v = version_string (major_of v) (minor_of v) (patch_of v) (suffix_of v)"
    by (simp add: version_string_def)
  show "is_component (major_of v)" "is_component (minor_of v)" "is_component (patch_of v)"
    using assms
    by (auto simp: well_formed_def is_component_def major_of_def minor_of_def patch_of_def
        list_all_iff dest: set_takeWhileD)
  show "is_prerelease_suffix (suffix_of v)"
    using assms by (simp add: well_formed_def)
qed

lemma cleanup_well_formed:
  "well_formed v \<Longrightarrow>
   js_split (regex_replace False v) = [major_of v, minor_of v, patch_of v]"
  using split_version_string [of "major_of v" "minor_of v" "patch_of v" "suffix_of v"]
    well_formed_parts [of v] by simp

lemma compareVersion_well_formed:
  assumes "well_formed a" "well_formed b"
  shows "compareVersion (JString a) (JString b) =
         Inr (Some (order_sign (version_key a) (version_key b)))"
proof -
  note ca = well_formed_parts(2-4) [OF assms(1)]
  note cb = well_formed_parts(2-4) [OF assms(2)]
  have c: "\<And>x y. is_component x \<Longrightarrow> is_component y \<Longrightarrow>
      compare (string_to_number x) (string_to_number y) =
      Some (order_sign (rank (number_value (component_value x)))
                       (rank (number_value (component_value y))))"
    by (simp add: string_to_number_component compare_rank number_value_not_NaN)
  have "compareVersion (JString a) (JString b) =
        Inr (compareVersion_loop [major_of a, minor_of a, patch_of a]
                                 [major_of b, minor_of b, patch_of b] 0)"
    by (simp add: compareVersion_def cleanupVersion_def cleanup_well_formed assms)
  also have "\<dots> = Inr (Some (order_sign (version_key a) (version_key b)))"
    unfolding compareVersion_loop_3 version_key_def order_sign_triple [symmetric]
    by (simp add: c ca cb)
  finally show ?thesis .
qed


lemma version_key_exact:
  "exact (components v) \<Longrightarrow>
   version_key v = (case components v of (x, y, z) \<Rightarrow> (enat x, enat y, enat z))"
  by (simp add: exact_def components_def version_key_def number_value_exact)

lemma order_sign_enat_triple:
  "order_sign (enat x1, enat x2, enat x3) (enat y1, enat y2, enat y3) =
   compare_triples (x1, x2, x3) (y1, y2, y3)"
  by (auto simp: order_sign_def compare_triples_def sign_of_def)

lemmas string_eval = js_def is_digit_def is_line_terminator_def is_prerelease_suffix_def
  starts_with_dot_def major_of_def after_major_def minor_of_def after_minor_def patch_of_def
  suffix_of_def well_formed_def

lemmas number_eval = component_value_def digits_value_def digit_value_def components_def
  version_key_def number_value_def order_sign_def

lemma wf_2_10_0: "well_formed (js ''2.10.0'')"
  by (simp add: string_eval)

lemma wf_2_9_0: "well_formed (js ''2.9.0'')"
  by (simp add: string_eval)

lemma cmp_2_10_0: "compareVersion (JString (js ''2.10.0'')) (JString (js ''2.9.0'')) = Inr (Some 1)"
  unfolding compareVersion_well_formed [OF wf_2_10_0 wf_2_9_0]
  by (simp add: string_eval number_eval)

lemmas compare_eval = compareVersion_def cleanupVersion_def compareVersion_loop.simps index_def
  unary_plus_def string_to_number_def trim_def is_str_white_space_char_def is_white_space_def
  str_numeric_literal_def str_decimal_literal_def str_unsigned_decimal_literal_def
  non_decimal_integer_literal_def is_radix_digit_def is_hex_letter_def compare_def Let_def

lemma cleanupVersion_append_dash:
  "list_all (\<lambda>x. \<not> is_line_terminator x) s \<Longrightarrow>
   cleanupVersion (JString (v @ 0x2D # s)) = cleanupVersion (JString v)"
  by (simp add: cleanupVersion_def regex_replace_append_dash)

lemma wf_2_5_0: "well_formed (js ''2.5.0'')"
  by (simp add: string_eval)

lemma wf_2_5_0_beta_1: "well_formed (js ''2.5.0-beta.1'')"
  by (simp add: string_eval)

lemma cmp_2_5_0_beta_1:
  "compareVersion (JString (js ''2.5.0-beta.1'')) (JString (js ''2.5.0'')) = Inr (Some 0)"
  unfolding compareVersion_well_formed [OF wf_2_5_0_beta_1 wf_2_5_0]
  by (simp add: string_eval number_eval)

section \<open>Properties of the version comparator\<close>

text \<open>
  Claim C5. On well-formed version strings \<^verbatim>\<open>compareVersion\<close> is antisymmetric:
  \<^verbatim>\<open>compareVersion(b, a)\<close> is the negation of \<^verbatim>\<open>compareVersion(a, b)\<close>, which is one
  of -1, 0 and 1. The ordering is transitive: two comparisons with the same result
  give that result for the outer pair, and "not greater" composes.
\<close>

theorem compareVersion_antisymmetric_transitive:
  assumes "well_formed a" "well_formed b" "well_formed c"
  shows "(\<exists>r. (r = - 1 \<or> r = 0 \<or> r = 1) \<and>
              compareVersion (JString a) (JString b) = Inr (Some r) \<and>
              compareVersion (JString b) (JString a) = Inr (Some (- r))) \<and>
         (\<forall>r. compareVersion (JString a) (JString b) = Inr (Some r) \<and>
              compareVersion (JString b) (JString c) = Inr (Some r) \<longrightarrow>
              compareVersion (JString a) (JString c) = Inr (Some r)) \<and>
         (compareVersion (JString a) (JString b) \<noteq> Inr (Some 1) \<and>
          compareVersion (JString b) (JString c) \<noteq> Inr (Some 1) \<longrightarrow>
          compareVersion (JString a) (JString c) \<noteq> Inr (Some 1))"
proof -
  have ab: "compareVersion (JString a) (JString b) =
      Inr (Some (order_sign (version_key a) (version_key b)))"
    and ba: "compareVersion (JString b) (JString a) =
      Inr (Some (order_sign (version_key b) (version_key a)))"
    and bc: "compareVersion (JString b) (JString c) =
      Inr (Some (order_sign (version_key b) (version_key c)))"
    and ac: "compareVersion (JString a) (JString c) =
      Inr (Some (order_sign (version_key a) (version_key c)))"
    using assms by (simp_all add: compareVersion_well_formed)
  have 1: "\<exists>r. (r = - 1 \<or> r = 0 \<or> r = 1) \<and>
              compareVersion (JString a) (JString b) = Inr (Some r) \<and>
              compareVersion (JString b) (JString a) = Inr (Some (- r))"
    using order_sign_range [of "version_key a" "version_key b"]
    by (simp add: ab ba order_sign_antisym [of "version_key b" "version_key a"])
  have 2: "\<forall>r. compareVersion (JString a) (JString b) = Inr (Some r) \<and>
              compareVersion (JString b) (JString c) = Inr (Some r) \<longrightarrow>
              compareVersion (JString a) (JString c) = Inr (Some r)"
    by (simp add: ab bc ac) (metis order_sign_trans)
  have 3: "compareVersion (JString a) (JString b) \<noteq> Inr (Some 1) \<and>
          compareVersion (JString b) (JString c) \<noteq> Inr (Some 1) \<longrightarrow>
          compareVersion (JString a) (JString c) \<noteq> Inr (Some 1)"
    by (simp add: ab bc ac) (auto simp: order_sign_def split: if_splits)
  from 1 2 3 show ?thesis by blast
qed

text \<open>The theorem of C5 at \<^verbatim>\<open>1.9.0\<close>, \<^verbatim>\<open>2.0.0-beta.2\<close> and \<^verbatim>\<open>2.10.1\<close>.\<close>

theorem compareVersion_antisymmetric_transitive_witness:
  "well_formed (js ''1.9.0'') \<and> well_formed (js ''2.0.0-beta.2'') \<and> well_formed (js ''2.10.1'') \<and>
   compareVersion (JString (js ''1.9.0'')) (JString (js ''2.0.0-beta.2'')) = Inr (Some (- 1)) \<and>
   compareVersion (JString (js ''2.0.0-beta.2'')) (JString (js ''1.9.0'')) = Inr (Some 1) \<and>
   compareVersion (JString (js ''2.0.0-beta.2'')) (JString (js ''2.10.1'')) = Inr (Some (- 1)) \<and>
   compareVersion (JString (js ''1.9.0'')) (JString (js ''2.10.1'')) = Inr (Some (- 1))"
proof -
  have a: "well_formed (js ''1.9.0'')" by (simp add: string_eval)
  have b: "well_formed (js ''2.0.0-beta.2'')" by (simp add: string_eval)
  have c: "well_formed (js ''2.10.1'')" by (simp add: string_eval)
  have ab: "compareVersion (JString (js ''1.9.0'')) (JString (js ''2.0.0-beta.2'')) = Inr (Some (- 1))"
    unfolding compareVersion_well_formed [OF a b] by (simp add: string_eval number_eval)
  have bc: "compareVersion (JString (js ''2.0.0-beta.2'')) (JString (js ''2.10.1'')) = Inr (Some (- 1))"
    unfolding compareVersion_well_formed [OF b c] by (simp add: string_eval number_eval)
  show ?thesis
    using compareVersion_antisymmetric_transitive [OF a b c] a b c ab bc by auto
qed


text \<open>
  Claim C6, amended. A suffix that starts with \<^verbatim>\<open>-\<close> and contains no line terminator
  is ignored by the comparison, in either argument and whatever the other argument is:
  \<^verbatim>\<open>compareVersion(v + "-" + s, w)\<close> is \<^verbatim>\<open>compareVersion(v, w)\<close>. In particular
  \<^verbatim>\<open>compareVersion("2.5.0-beta.1", "2.5.0")\<close> is 0. The regular expression
  \<^verbatim>\<open>/-.*/g\<close> stops at a line terminator, so what follows one is kept.
\<close>

theorem compareVersion_ignores_suffix:
  assumes "list_all (\<lambda>x. \<not> is_line_terminator x) s"
  shows "compareVersion (JString (v @ 0x2D # s)) w = compareVersion (JString v) w \<and>
         compareVersion w (JString (v @ 0x2D # s)) = compareVersion w (JString v) \<and>
         compareVersion (JString (js ''2.5.0-beta.1'')) (JString (js ''2.5.0'')) = Inr (Some 0)"
proof (intro conjI)
  show "compareVersion (JString (v @ 0x2D # s)) w = compareVersion (JString v) w"
    using assms by (simp add: compareVersion_def cleanupVersion_append_dash)
  show "compareVersion w (JString (v @ 0x2D # s)) = compareVersion w (JString v)"
    using assms by (simp add: compareVersion_def cleanupVersion_append_dash split: sum.splits)
  show "compareVersion (JString (js ''2.5.0-beta.1'')) (JString (js ''2.5.0'')) = Inr (Some 0)"
    by (rule cmp_2_5_0_beta_1)
qed

text \<open>The theorem of C6 at the suffix \<^verbatim>\<open>rc.1+build\<close>.\<close>

theorem compareVersion_ignores_suffix_witness:
  "list_all (\<lambda>x. \<not> is_line_terminator x) (js ''rc.1+build'') \<and>
   compareVersion (JString (js ''3.1'' @ 0x2D # js ''rc.1+build'')) (JString (js ''3.1.4'')) =
     compareVersion (JString (js ''3.1'')) (JString (js ''3.1.4'')) \<and>
   compareVersion (JString (js ''3.1.4'')) (JString (js ''3.1'' @ 0x2D # js ''rc.1+build'')) =
     compareVersion (JString (js ''3.1.4'')) (JString (js ''3.1''))"
proof -
  have s: "list_all (\<lambda>x. \<not> is_line_terminator x) (js ''rc.1+build'')"
    by (simp add: js_def is_line_terminator_def)
  show ?thesis
    using compareVersion_ignores_suffix [OF s, of "js ''3.1''" "JString (js ''3.1.4'')"] s
    by blast
qed

text \<open>
  C6 as first stated fails for a suffix with a line feed: \<^verbatim>\<open>"2.5.0-\n1"\<close> is cleaned
  to \<^verbatim>\<open>"2.5.0\n1"\<close>, whose third component \<^verbatim>\<open>"0\n1"\<close> converts to NaN, and the
  comparison with \<^verbatim>\<open>"2.5.0"\<close> returns \<^verbatim>\<open>undefined\<close>, not 0.
\<close>

theorem compareVersion_ignores_suffix_counterexample:
  "compareVersion (JString (js ''2.5.0'' @ 0x2D # [0x0A, 0x31])) (JString (js ''2.5.0'')) = Inr None \<and>
   compareVersion (JString (js ''2.5.0'')) (JString (js ''2.5.0'')) = Inr (Some 0)"
proof -
  have c: "regex_replace False (js ''2.5.0'' @ 0x2D # [0x0A, 0x31]) = js ''2.5.0'' @ [0x0A, 0x31]"
    by (simp add: js_def is_line_terminator_def)
  have p: "js_split (js ''2.5.0'' @ [0x0A, 0x31]) = [js ''2'', js ''5'', js ''0'' @ [0x0A, 0x31]]"
    by (simp add: js_def)
  have q: "js_split (regex_replace False (js ''2.5.0'')) = [js ''2'', js ''5'', js ''0'']"
    by (simp add: js_def is_line_terminator_def)
  have n: "string_to_number (js ''0'' @ [0x0A, 0x31]) = NaN"
    by (simp add: compare_eval string_eval number_eval)
  have d: "string_to_number (js ''2'') = Fin 2" "string_to_number (js ''5'') = Fin 5"
    "string_to_number (js ''0'') = Fin 0"
    by (simp_all add: compare_eval string_eval number_eval)
  have "compareVersion (JString (js ''2.5.0'' @ 0x2D # [0x0A, 0x31])) (JString (js ''2.5.0'')) =
        Inr None"
    by (simp add: compareVersion_def cleanupVersion_def c p q compareVersion_loop_3 n d compare_def)
  moreover have "compareVersion (JString (js ''2.5.0'')) (JString (js ''2.5.0'')) = Inr (Some 0)"
    unfolding compareVersion_well_formed [OF wf_2_5_0 wf_2_5_0] by (simp add: order_sign_def)
  ultimately show ?thesis by simp
qed

text \<open>
  Claim C7, amended. On well-formed version strings \<^verbatim>\<open>compareVersion\<close> compares
  major, then minor, then patch as Number values, and the first unequal component decides.
  When every component is below \<open>2 ^ 53\<close> this is the comparison of the components as
  integers; a larger component is first rounded to the nearest double. In particular
  \<^verbatim>\<open>compareVersion("2.10.0", "2.9.0")\<close> is 1.
\<close>

theorem compareVersion_componentwise:
  assumes "well_formed a" "well_formed b"
  shows "compareVersion (JString a) (JString b) =
           Inr (Some (order_sign (version_key a) (version_key b))) \<and>
         (exact (components a) \<and> exact (components b) \<longrightarrow>
            compareVersion (JString a) (JString b) =
              Inr (Some (compare_triples (components a) (components b)))) \<and>
         compareVersion (JString (js ''2.10.0'')) (JString (js ''2.9.0'')) = Inr (Some 1)"
proof (intro conjI impI)
  show g: "compareVersion (JString a) (JString b) =
      Inr (Some (order_sign (version_key a) (version_key b)))"
    by (rule compareVersion_well_formed [OF assms])
  show "compareVersion (JString a) (JString b) =
      Inr (Some (compare_triples (components a) (components b)))"
    if "exact (components a) \<and> exact (components b)"
  proof -
    obtain x1 x2 x3 y1 y2 y3 where
      c: "components a = (x1, x2, x3)" "components b = (y1, y2, y3)"
      by (metis prod_cases3)
    show ?thesis
      using that by (simp add: g version_key_exact c order_sign_enat_triple)
  qed
  show "compareVersion (JString (js ''2.10.0'')) (JString (js ''2.9.0'')) = Inr (Some 1)"
    by (rule cmp_2_10_0)
qed


text \<open>The theorem of C7 at \<^verbatim>\<open>1.4.7\<close> and \<^verbatim>\<open>1.12.0-beta.3\<close>.\<close>

theorem compareVersion_componentwise_witness:
  "well_formed (js ''1.4.7'') \<and> well_formed (js ''1.12.0-beta.3'') \<and>
   exact (components (js ''1.4.7'')) \<and> exact (components (js ''1.12.0-beta.3'')) \<and>
   compareVersion (JString (js ''1.4.7'')) (JString (js ''1.12.0-beta.3'')) =
     Inr (Some (compare_triples (components (js ''1.4.7'')) (components (js ''1.12.0-beta.3'')))) \<and>
   compare_triples (components (js ''1.4.7'')) (components (js ''1.12.0-beta.3'')) = - 1"
proof -
  have a: "well_formed (js ''1.4.7'')" by (simp add: string_eval)
  have b: "well_formed (js ''1.12.0-beta.3'')" by (simp add: string_eval)
  have ca: "components (js ''1.4.7'') = (1, 4, 7)"
    by (simp add: string_eval number_eval)
  have cb: "components (js ''1.12.0-beta.3'') = (1, 12, 0)"
    by (simp add: string_eval number_eval)
  have e: "exact (components (js ''1.4.7'')) \<and> exact (components (js ''1.12.0-beta.3''))"
    by (simp add: ca cb exact_def)
  have v: "compare_triples (components (js ''1.4.7'')) (components (js ''1.12.0-beta.3'')) = - 1"
    by (simp add: ca cb compare_triples_def sign_of_def)
  show ?thesis
    using compareVersion_componentwise [OF a b] a b e v by blast
qed

text \<open>
  C7 as first stated fails above \<open>2 ^ 53\<close>: the patch components 9007199254740993 and
  9007199254740992 differ as integers, but both convert to the same Number, and the
  comparison returns 0.
\<close>

theorem compareVersion_componentwise_counterexample:
  "well_formed (js ''0.0.9007199254740993'') \<and> well_formed (js ''0.0.9007199254740992'') \<and>
   components (js ''0.0.9007199254740993'') = (0, 0, 9007199254740993) \<and>
   components (js ''0.0.9007199254740992'') = (0, 0, 9007199254740992) \<and>
   compare_triples (0, 0, 9007199254740993) (0, 0, 9007199254740992) = 1 \<and>
   compareVersion (JString (js ''0.0.9007199254740993''))
                  (JString (js ''0.0.9007199254740992'')) = Inr (Some 0)"
proof -
  have a: "well_formed (js ''0.0.9007199254740993'')" by (simp add: string_eval)
  have b: "well_formed (js ''0.0.9007199254740992'')" by (simp add: string_eval)
  have ca: "components (js ''0.0.9007199254740993'') = (0, 0, 9007199254740993)"
    by (simp add: string_eval number_eval)
  have cb: "components (js ''0.0.9007199254740992'') = (0, 0, 9007199254740992)"
    by (simp add: string_eval number_eval)
  have n1: "number_value 9007199254740993 = Fin 9007199254740992"
    by (simp add: number_value_def bit_length.simps Let_def)
  have n2: "number_value 9007199254740992 = Fin 9007199254740992"
    by (simp add: number_value_def bit_length.simps Let_def)
  have k: "version_key (js ''0.0.9007199254740993'') = version_key (js ''0.0.9007199254740992'')"
    using ca cb by (simp add: version_key_def components_def n1 n2)
  have "compareVersion (JString (js ''0.0.9007199254740993''))
                  (JString (js ''0.0.9007199254740992'')) = Inr (Some 0)"
    unfolding compareVersion_well_formed [OF a b] k by (simp add: order_sign_def)
  then show ?thesis
    using a b ca cb by (simp add: compare_triples_def sign_of_def)
qed

text \<open>
  Claim C9, amended. For version strings of three components of decimal digits,
  optionally followed by a suffix that starts with \<^verbatim>\<open>-\<close> and contains no line
  terminator, \<^verbatim>\<open>compareVersion\<close> returns one of -1, 0 and 1, and at each of the
  three indices of the loop \<^verbatim>\<open>compare\<close> returns a value: its fall-through is not
  reached.
\<close>

theorem compareVersion_total:
  assumes "well_formed a" "well_formed b"
  shows "(compareVersion (JString a) (JString b) = Inr (Some (- 1)) \<or>
          compareVersion (JString a) (JString b) = Inr (Some 0) \<or>
          compareVersion (JString a) (JString b) = Inr (Some 1)) \<and>
         (\<forall>i<3. compare (unary_plus (index (js_split (regex_replace False a)) i))
                        (unary_plus (index (js_split (regex_replace False b)) i)) \<noteq> None)"
proof
  show "compareVersion (JString a) (JString b) = Inr (Some (- 1)) \<or>
        compareVersion (JString a) (JString b) = Inr (Some 0) \<or>
        compareVersion (JString a) (JString b) = Inr (Some 1)"
    using order_sign_range [of "version_key a" "version_key b"]
    by (simp add: compareVersion_well_formed [OF assms])
  show "\<forall>i<3. compare (unary_plus (index (js_split (regex_replace False a)) i))
                      (unary_plus (index (js_split (regex_replace False b)) i)) \<noteq> None"
  proof (intro allI impI)
    fix i :: nat
    assume "i < 3"
    then have i: "i = 0 \<or> i = 1 \<or> i = 2" by auto
    note ca = well_formed_parts(2-4) [OF assms(1)]
    note cb = well_formed_parts(2-4) [OF assms(2)]
    show "compare (unary_plus (index (js_split (regex_replace False a)) i))
                  (unary_plus (index (js_split (regex_replace False b)) i)) \<noteq> None"
      using i ca cb
      by (auto simp: cleanup_well_formed assms index_def unary_plus_def
          string_to_number_component compare_rank number_value_not_NaN)
  qed
qed

text \<open>The theorem of C9 at \<^verbatim>\<open>2.16.0-canary+3f2a\<close> and \<^verbatim>\<open>2.16.2\<close>.\<close>

theorem compareVersion_total_witness:
  "well_formed (js ''2.16.0-canary+3f2a'') \<and> well_formed (js ''2.16.2'') \<and>
   compareVersion (JString (js ''2.16.0-canary+3f2a'')) (JString (js ''2.16.2'')) = Inr (Some (- 1)) \<and>
   compare (unary_plus (index (js_split (regex_replace False (js ''2.16.0-canary+3f2a''))) 2))
           (unary_plus (index (js_split (regex_replace False (js ''2.16.2''))) 2)) \<noteq> None"
proof -
  have a: "well_formed (js ''2.16.0-canary+3f2a'')" by (simp add: string_eval)
  have b: "well_formed (js ''2.16.2'')" by (simp add: string_eval)
  have ab: "compareVersion (JString (js ''2.16.0-canary+3f2a'')) (JString (js ''2.16.2'')) =
      Inr (Some (- 1))"
    unfolding compareVersion_well_formed [OF a b] by (simp add: string_eval number_eval)
  show ?thesis
    using compareVersion_total [OF a b] a b ab by simp
qed

text \<open>
  C9 as first stated fails for a suffix with a carriage return: \<^verbatim>\<open>"1.4.2-\r7"\<close> has
  three components of digits and a suffix that starts with \<^verbatim>\<open>-\<close>, but it is cleaned
  to \<^verbatim>\<open>"1.4.2\r7"\<close>, whose third component \<^verbatim>\<open>"2\r7"\<close> converts to NaN: at index 2
  \<^verbatim>\<open>compare\<close> falls through, and \<^verbatim>\<open>compareVersion\<close> returns \<^verbatim>\<open>undefined\<close>.
\<close>

theorem compareVersion_total_counterexample:
  "claimed_well_formed (js ''1.4.2'' @ 0x2D # [0x0D, 0x37]) \<and>
   claimed_well_formed (js ''1.4.2'') \<and>
   major_of (js ''1.4.2'' @ 0x2D # [0x0D, 0x37]) = js ''1'' \<and>
   minor_of (js ''1.4.2'' @ 0x2D # [0x0D, 0x37]) = js ''4'' \<and>
   patch_of (js ''1.4.2'' @ 0x2D # [0x0D, 0x37]) = js ''2'' \<and>
   suffix_of (js ''1.4.2'' @ 0x2D # [0x0D, 0x37]) = 0x2D # [0x0D, 0x37] \<and>
   compare (unary_plus (index (js_split (regex_replace False
              (js ''1.4.2'' @ 0x2D # [0x0D, 0x37]))) 2))
           (unary_plus (index (js_split (regex_replace False (js ''1.4.2''))) 2)) = None \<and>
   compareVersion (JString (js ''1.4.2'' @ 0x2D # [0x0D, 0x37])) (JString (js ''1.4.2'')) =
     Inr None"
proof -
  have w: "claimed_well_formed (js ''1.4.2'' @ 0x2D # [0x0D, 0x37])"
    "claimed_well_formed (js ''1.4.2'')"
    by (simp_all add: claimed_well_formed_def string_eval)
  have s: "major_of (js ''1.4.2'' @ 0x2D # [0x0D, 0x37]) = js ''1''"
    "minor_of (js ''1.4.2'' @ 0x2D # [0x0D, 0x37]) = js ''4''"
    "patch_of (js ''1.4.2'' @ 0x2D # [0x0D, 0x37]) = js ''2''"
    "suffix_of (js ''1.4.2'' @ 0x2D # [0x0D, 0x37]) = 0x2D # [0x0D, 0x37]"
    by (simp_all add: string_eval)
  have p: "js_split (regex_replace False (js ''1.4.2'' @ 0x2D # [0x0D, 0x37])) =
      [js ''1'', js ''4'', js ''2'' @ [0x0D, 0x37]]"
    by (simp add: js_def is_line_terminator_def)
  have q: "js_split (regex_replace False (js ''1.4.2'')) = [js ''1'', js ''4'', js ''2'']"
    by (simp add: js_def is_line_terminator_def)
  have n: "string_to_number (js ''2'' @ [0x0D, 0x37]) = NaN"
    by (simp add: compare_eval string_eval number_eval)
  have d: "string_to_number (js ''1'') = Fin 1" "string_to_number (js ''4'') = Fin 4"
    "string_to_number (js ''2'') = Fin 2"
    by (simp_all add: compare_eval string_eval number_eval)
  have i: "compare (unary_plus (index (js_split (regex_replace False
              (js ''1.4.2'' @ 0x2D # [0x0D, 0x37]))) 2))
           (unary_plus (index (js_split (regex_replace False (js ''1.4.2''))) 2)) = None"
    by (simp add: p q index_def unary_plus_def n d compare_def)
  have c: "compareVersion (JString (js ''1.4.2'' @ 0x2D # [0x0D, 0x37])) (JString (js ''1.4.2'')) =
      Inr None"
    by (simp add: compareVersion_def cleanupVersion_def p q compareVersion_loop_3 n d compare_def)
  from w s i c show ?thesis by blast
qed

section \<open>The adapter: callbacks and dispatch\<close>

lemma invocations_append: "invocations (xs @ ys) = invocations xs @ invocations ys"
  by (induction xs rule: invocations.induct) auto

lemma mismatches_append: "mismatches (xs @ ys) = mismatches xs @ mismatches ys"
  by (induction xs rule: mismatches.induct) auto

lemma versionListener_callbacks:
  "messageCallbacks (final (versionListener cfg m a)) = messageCallbacks a"
  by (auto simp: versionListener_def final_def onVersionMismatch_def record_event_def
      split: sum.splits option.splits)

lemma versionListener_invocations:
  "invocations (trace (final (versionListener cfg m a))) = invocations (trace a)"
  by (auto simp: versionListener_def final_def onVersionMismatch_def record_event_def
      invocations_append split: sum.splits option.splits)

lemma versionListener_threw:
  "threw (versionListener cfg m a) = threw (versionListener cfg m b)"
  by (auto simp: versionListener_def threw_def split: sum.splits option.splits)

lemma call_callbacks: "messageCallbacks (final (call cfg c m a)) = messageCallbacks a"
proof (cases c)
  case VersionListener
  then show ?thesis by (simp add: call_def versionListener_callbacks)
next
  case (External k f)
  then show ?thesis by (simp add: call_def final_def split: option.splits)
qed

lemma call_invocations: "invocations (trace (final (call cfg c m a))) = invocations (trace a)"
proof (cases c)
  case VersionListener
  then show ?thesis by (simp add: call_def versionListener_invocations)
next
  case (External k f)
  then show ?thesis by (simp add: call_def final_def split: option.splits)
qed

lemma call_threw: "threw (call cfg c m a) = raises cfg c m"
proof (cases c)
  case VersionListener
  then show ?thesis
    using versionListener_threw [of cfg m a] by (simp add: call_def raises_def)
next
  case (External k f)
  then show ?thesis by (simp add: call_def raises_def threw_def split: option.splits)
qed

lemma call_returns:
  assumes "\<not> raises cfg c m"
  obtains b where "call cfg c m a = Inr b" "messageCallbacks b = messageCallbacks a"
    "invocations (trace b) = invocations (trace a)"
proof (cases "call cfg c m a")
  case (Inl x)
  then show ?thesis using assms call_threw [of cfg c m a] by (simp add: threw_def)
next
  case (Inr b)
  then show ?thesis
    using that call_callbacks [of cfg c m a] call_invocations [of cfg c m a]
    by (simp add: final_def)
qed

lemma call_throws:
  assumes "raises cfg c m"
  obtains e b where "call cfg c m a = Inl (e, b)" "messageCallbacks b = messageCallbacks a"
    "invocations (trace b) = invocations (trace a)"
proof (cases "call cfg c m a")
  case (Inl x)
  then show ?thesis
    using that call_callbacks [of cfg c m a] call_invocations [of cfg c m a]
    by (cases x) (simp add: final_def)
next
  case (Inr b)
  then show ?thesis using assms call_threw [of cfg c m a] by (simp add: threw_def)
qed

lemma forEach_callbacks:
  "messageCallbacks (final (forEach cfg cbs m a)) = messageCallbacks a"
proof (induction cbs arbitrary: a)
  case Nil
  then show ?case by (simp add: final_def)
next
  case (Cons c cbs)
  let ?b = "record_event (Invoked (name_of c) m) a"
  have b: "messageCallbacks ?b = messageCallbacks a" by (simp add: record_event_def)
  show ?case
  proof (cases "raises cfg c m")
    case True
    then obtain e b' where "call cfg c m ?b = Inl (e, b')" "messageCallbacks b' = messageCallbacks ?b"
      using call_throws [of cfg c m ?b] by metis
    then show ?thesis using b by (simp add: final_def)
  next
    case False
    then obtain b' where "call cfg c m ?b = Inr b'" "messageCallbacks b' = messageCallbacks ?b"
      using call_returns [of cfg c m ?b] by metis
    then show ?thesis using Cons.IH [of b'] b by simp
  qed
qed

lemma forEach_no_exception:
  "\<forall>p\<in>set cbs. \<not> raises cfg p m \<Longrightarrow>
   \<not> threw (forEach cfg cbs m a) \<and>
   invocations (trace (final (forEach cfg cbs m a))) =
     invocations (trace a) @ map (\<lambda>p. (name_of p, m)) cbs"
proof (induction cbs arbitrary: a)
  case Nil
  then show ?case by (simp add: final_def threw_def)
next
  case (Cons c cbs)
  let ?b = "record_event (Invoked (name_of c) m) a"
  have b: "invocations (trace ?b) = invocations (trace a) @ [(name_of c, m)]"
    by (simp add: record_event_def invocations_append)
  from Cons.prems obtain b' where
    "call cfg c m ?b = Inr b'" "invocations (trace b') = invocations (trace ?b)"
    using call_returns [of cfg c m ?b] by (metis list.set_intros(1))
  then show ?case
    using Cons.IH [of b'] Cons.prems b by simp
qed

lemma forEach_exception:
  "\<forall>p\<in>set pre. \<not> raises cfg p m \<Longrightarrow> raises cfg c m \<Longrightarrow>
   threw (forEach cfg (pre @ c # post) m a) \<and>
   invocations (trace (final (forEach cfg (pre @ c # post) m a))) =
     invocations (trace a) @ map (\<lambda>p. (name_of p, m)) (pre @ [c])"
proof (induction pre arbitrary: a)
  case Nil
  let ?b = "record_event (Invoked (name_of c) m) a"
  have b: "invocations (trace ?b) = invocations (trace a) @ [(name_of c, m)]"
    by (simp add: record_event_def invocations_append)
  from Nil obtain e b' where
    "call cfg c m ?b = Inl (e, b')" "invocations (trace b') = invocations (trace ?b)"
    using call_throws [of cfg c m ?b] by metis
  then show ?case using b by (simp add: threw_def final_def)
next
  case (Cons x pre)
  let ?b = "record_event (Invoked (name_of x) m) a"
  have b: "invocations (trace ?b) = invocations (trace a) @ [(name_of x, m)]"
    by (simp add: record_event_def invocations_append)
  from Cons.prems obtain b' where
    "call cfg x m ?b = Inr b'" "invocations (trace b') = invocations (trace ?b)"
    using call_returns [of cfg x m ?b] by (metis list.set_intros(1))
  then show ?case
    using Cons.IH [of b'] Cons.prems b by simp
qed

lemma messageReceived_no_exception:
  "\<forall>p\<in>set (messageCallbacks a). \<not> raises cfg p m \<Longrightarrow>
   \<not> threw (messageReceived cfg m a) \<and>
   invocations (trace (final (messageReceived cfg m a))) =
     invocations (trace a) @ map (\<lambda>p. (name_of p, m)) (messageCallbacks a)"
  unfolding messageReceived_def by (rule forEach_no_exception)

lemma fold_onMessageReceived:
  "messageCallbacks (fold onMessageReceived cbs a) = messageCallbacks a @ cbs \<and>
   invocations (trace (fold onMessageReceived cbs a)) = invocations (trace a)"
  by (induction cbs arbitrary: a)
     (auto simp: onMessageReceived_def record_event_def invocations_append)

lemma init_state:
  "messageCallbacks init = [VersionListener]" "invocations (trace init) = []"
  "mismatches (trace init) = []"
  by (simp_all add: init_def checkVersion_def sendMessage_def onMessageReceived_def
      record_event_def)

lemma raises_samples:
  "\<not> raises cfg (returning k) m" "raises cfg (throwing k) m"
  by (simp_all add: raises_def call_def threw_def returning_def throwing_def)

lemma name_of_samples: "name_of (returning k) = Ext k" "name_of (throwing k) = Ext k"
  by (simp_all add: returning_def throwing_def)

section \<open>The adapter: the version listener\<close>

lemma element_last: "element xs (int (length xs) - 1) = last_element xs"
  by (cases "xs = []") (auto simp: element_def last_element_def last_conv_nth nat_diff_distrib')

lemma compareVersion_strings:
  "\<exists>r. compareVersion (JString a) (JString b) = Inr r"
  by (simp add: compareVersion_def cleanupVersion_def)

lemma tillVersion_cases:
  "tillVersion_of cfg = JUndefined \<or> (\<exists>t. tillVersion_of cfg = JString t)"
  by (simp add: tillVersion_of_def element_def)

lemma neededVersion_strings:
  assumes "fromVersion_of cfg = JString f"
  shows "neededVersion cfg (JString v) =
         Inr (if compareVersion (JString v) (fromVersion_of cfg) = Inr (Some (- 1))
              then Some (last_element (previousEmberVersionsSupported cfg))
              else if truthy (tillVersion_of cfg) \<and>
                      compareVersion (JString v) (tillVersion_of cfg) \<noteq> Inr (Some (- 1))
              then Some (tillVersion_of cfg)
              else None)"
proof -
  obtain r where r: "compareVersion (JString v) (JString f) = Inr r"
    using compareVersion_strings by blast
  show ?thesis
  proof (cases "truthy (tillVersion_of cfg)")
    case False
    then show ?thesis
      using assms r
      by (simp add: neededVersion_def Let_def element_last
          fromVersion_of_def [symmetric] tillVersion_of_def [symmetric])
  next
    case True
    then obtain t where t: "tillVersion_of cfg = JString t"
      using tillVersion_cases [of cfg] by auto
    obtain r' where r': "compareVersion (JString v) (JString t) = Inr r'"
      using compareVersion_strings by blast
    show ?thesis
      using assms r r' t True
      by (simp add: neededVersion_def Let_def element_last
          fromVersion_of_def [symmetric] tillVersion_of_def [symmetric])
  qed
qed

lemma versionListener_on_mismatch:
  assumes "get_property m (js ''name'') = Inr (JString (js ''version-mismatch''))"
    and "get_property m (js ''version'') = Inr (JString v)"
    and "fromVersion_of cfg = JString f"
  shows "versionListener cfg m a =
         Inr (if compareVersion (JString v) (fromVersion_of cfg) = Inr (Some (- 1))
              then onVersionMismatch (last_element (previousEmberVersionsSupported cfg)) a
              else if truthy (tillVersion_of cfg) \<and>
                      compareVersion (JString v) (tillVersion_of cfg) \<noteq> Inr (Some (- 1))
              then onVersionMismatch (tillVersion_of cfg) a
              else a)"
  using assms(1,2) by (simp add: versionListener_def neededVersion_strings [OF assms(3)])

lemma versionListener_other_name:
  assumes "get_property m (js ''name'') \<noteq> Inr (JString (js ''version-mismatch''))"
  shows "trace (final (versionListener cfg m a)) = trace a"
  using assms
  by (auto simp: versionListener_def final_def get_property_def split: sum.splits jsval.splits)

lemma versionListener_passes:
  assumes "m \<noteq> JUndefined" "m \<noteq> JNull"
    and "get_property m (js ''name'') \<noteq> Inr (JString (js ''version-mismatch''))"
  shows "versionListener cfg m a = Inr a"
  using assms
  by (auto simp: versionListener_def get_property_def split: sum.splits jsval.splits)

lemma versionListener_not_raises:
  assumes "m \<noteq> JUndefined" "m \<noteq> JNull"
    and "get_property m (js ''name'') \<noteq> Inr (JString (js ''version-mismatch''))"
  shows "\<not> raises cfg VersionListener m"
  using versionListener_passes [OF assms] by (simp add: raises_def call_def threw_def)

lemma wf_bounds: "well_formed (js ''2.0.0'')" "well_formed (js ''3.0.0'')"
  "well_formed (js ''1.5.0'')" "well_formed (js ''2.5.0'')"
  by (simp_all add: string_eval)

lemma sample_bounds:
  "fromVersion_of sample_config = JString (js ''2.0.0'')"
  "tillVersion_of sample_config = JString (js ''3.0.0'')"
  "last_element (previousEmberVersionsSupported sample_config) = JString (js ''1.9.0'')"
  by (simp_all add: fromVersion_of_def tillVersion_of_def sample_config_def element_def
      last_element_def)

lemma sample_comparisons:
  "compareVersion (JString (js ''1.5.0'')) (JString (js ''2.0.0'')) = Inr (Some (- 1))"
  "compareVersion (JString (js ''3.0.0'')) (JString (js ''2.0.0'')) = Inr (Some 1)"
  "compareVersion (JString (js ''3.0.0'')) (JString (js ''3.0.0'')) = Inr (Some 0)"
  "compareVersion (JString (js ''2.5.0'')) (JString (js ''2.0.0'')) = Inr (Some 1)"
  "compareVersion (JString (js ''2.5.0'')) (JString (js ''3.0.0'')) = Inr (Some (- 1))"
  by (simp_all add: compareVersion_well_formed wf_bounds)
     (simp_all add: string_eval number_eval)

lemma sample_truthy: "js ''3.0.0'' \<noteq> []" "js '''' = []"
  by (simp_all add: js_def)

lemma mismatch_message_properties:
  "get_property (mismatch_message v) (js ''name'') = Inr (JString (js ''version-mismatch''))"
  "get_property (mismatch_message v) (js ''version'') = Inr (JString v)"
  by (simp_all add: mismatch_message_def get_property_def js_def)

lemma render_message_name:
  "render_message \<noteq> JUndefined" "render_message \<noteq> JNull"
  "get_property render_message (js ''name'') \<noteq> Inr (JString (js ''version-mismatch''))"
  by (simp_all add: render_message_def get_property_def js_def)

lemma compare_with_empty:
  "compareVersion (JString (js ''2.5.0'')) (JString (js '''')) = Inr (Some 1)"
proof -
  have p: "js_split (regex_replace False (js ''2.5.0'')) = [js ''2'', js ''5'', js ''0'']"
    by (simp add: js_def is_line_terminator_def)
  have q: "js_split (regex_replace False (js '''')) = [[]]"
    by (simp add: js_def)
  have n: "string_to_number (js ''2'') = Fin 2" "string_to_number [] = Fin 0"
    by (simp_all add: compare_eval string_eval number_eval)
  show ?thesis
    by (subst compareVersion_def)
       (simp add: cleanupVersion_def p q compareVersion_loop.simps index_def unary_plus_def n
         compare_def)
qed

section \<open>Properties of the adapter\<close>

text \<open>
  Claim C3. Creating the adapter sends exactly one message, the object
  \<^verbatim>\<open>{type: "check-version", from: "devtools"}\<close>, and the version listener is appended
  to the callbacks before \<^verbatim>\<open>sendMessage\<close> is called: the trace shows the
  registration first and the send second, the state that \<^verbatim>\<open>sendMessage\<close> is called
  in already holds the listener and has sent nothing, and a message dispatched once
  \<^verbatim>\<open>init\<close> is over reaches the listener.
\<close>

theorem init_handshake:
  "sent (trace init) = [check_version_message] \<and>
   check_version_message =
     JObject [(js ''type'', JString (js ''check-version'')),
              (js ''from'', JString (js ''devtools''))] \<and>
   messageCallbacks init = [VersionListener] \<and>
   trace init = [Registered Internal, SendMessage check_version_message] \<and>
   init = sendMessage check_version_message
            (onMessageReceived VersionListener \<lparr>messageCallbacks = [], trace = []\<rparr>) \<and>
   messageCallbacks (onMessageReceived VersionListener \<lparr>messageCallbacks = [], trace = []\<rparr>) =
     [VersionListener] \<and>
   sent (trace (onMessageReceived VersionListener \<lparr>messageCallbacks = [], trace = []\<rparr>)) = [] \<and>
   invocations (trace (final (messageReceived cfg m init))) = [(Internal, m)]"
proof -
  have "invocations (trace (final (messageReceived cfg m init))) = [(Internal, m)]"
  proof (cases "raises cfg VersionListener m")
    case True
    have "\<forall>p\<in>set []. \<not> raises cfg p m" by simp
    from forEach_exception [OF this True, of "[]" init] show ?thesis
      by (simp add: messageReceived_def init_state)
  next
    case False
    then have "\<forall>p\<in>set (messageCallbacks init). \<not> raises cfg p m"
      by (simp add: init_state)
    from messageReceived_no_exception [OF this] show ?thesis
      by (simp add: init_state)
  qed
  then show ?thesis
    by (simp add: init_def checkVersion_def sendMessage_def onMessageReceived_def
        record_event_def check_version_message_def)
qed

text \<open>
  Claim C2, amended. For a message with the name \<^verbatim>\<open>version-mismatch\<close> and a string
  \<^verbatim>\<open>version\<close>, with \<^verbatim>\<open>fromVersion\<close> configured: if
  \<^verbatim>\<open>compareVersion(version, fromVersion)\<close> is -1, \<^verbatim>\<open>onVersionMismatch\<close> is called with
  the last element of \<^verbatim>\<open>previousEmberVersionsSupported\<close>; else if \<^verbatim>\<open>tillVersion\<close> is
  truthy (defined and not the empty string) and
  \<^verbatim>\<open>compareVersion(version, tillVersion)\<close> is not -1, it is called with
  \<^verbatim>\<open>tillVersion\<close>; otherwise it is not called and the adapter is unchanged.
\<close>

theorem versionListener_classifies:
  assumes "get_property m (js ''name'') = Inr (JString (js ''version-mismatch''))"
    and "get_property m (js ''version'') = Inr (JString v)"
    and "fromVersion_of cfg = JString f"
  shows "neededVersion cfg (JString v) =
         Inr (if compareVersion (JString v) (fromVersion_of cfg) = Inr (Some (- 1))
              then Some (last_element (previousEmberVersionsSupported cfg))
              else if truthy (tillVersion_of cfg) \<and>
                      compareVersion (JString v) (tillVersion_of cfg) \<noteq> Inr (Some (- 1))
              then Some (tillVersion_of cfg)
              else None) \<and>
         versionListener cfg m a =
         Inr (if compareVersion (JString v) (fromVersion_of cfg) = Inr (Some (- 1))
              then onVersionMismatch (last_element (previousEmberVersionsSupported cfg)) a
              else if truthy (tillVersion_of cfg) \<and>
                      compareVersion (JString v) (tillVersion_of cfg) \<noteq> Inr (Some (- 1))
              then onVersionMismatch (tillVersion_of cfg) a
              else a)"
  using neededVersion_strings [OF assms(3)] versionListener_on_mismatch [OF assms]
  by blast

text \<open>
  The theorem of C2 with the bounds \<^verbatim>\<open>2.0.0\<close> and \<^verbatim>\<open>3.0.0\<close> and the previous
  versions \<^verbatim>\<open>1.8.0\<close> and \<^verbatim>\<open>1.9.0\<close>: the version \<^verbatim>\<open>1.5.0\<close> asks for
  \<^verbatim>\<open>1.9.0\<close>, the version \<^verbatim>\<open>3.0.0\<close> for \<^verbatim>\<open>3.0.0\<close>, and \<^verbatim>\<open>2.5.0\<close> for
  nothing.
\<close>

theorem versionListener_classifies_witness:
  "get_property (mismatch_message (js ''1.5.0'')) (js ''name'') =
     Inr (JString (js ''version-mismatch'')) \<and>
   get_property (mismatch_message (js ''1.5.0'')) (js ''version'') = Inr (JString (js ''1.5.0'')) \<and>
   fromVersion_of sample_config = JString (js ''2.0.0'') \<and>
   versionListener sample_config (mismatch_message (js ''1.5.0'')) init =
     Inr (onVersionMismatch (JString (js ''1.9.0'')) init) \<and>
   versionListener sample_config (mismatch_message (js ''3.0.0'')) init =
     Inr (onVersionMismatch (JString (js ''3.0.0'')) init) \<and>
   versionListener sample_config (mismatch_message (js ''2.5.0'')) init = Inr init"
  using
    versionListener_classifies [OF mismatch_message_properties sample_bounds(1),
      of "js ''1.5.0''" init]
    versionListener_classifies [OF mismatch_message_properties sample_bounds(1),
      of "js ''3.0.0''" init]
    versionListener_classifies [OF mismatch_message_properties sample_bounds(1),
      of "js ''2.5.0''" init]
  by (simp add: mismatch_message_properties sample_bounds sample_comparisons sample_truthy)

text \<open>
  C2 as first stated fails when \<^verbatim>\<open>tillVersion\<close> is the empty string: it is defined, and
  \<^verbatim>\<open>compareVersion("2.5.0", "")\<close> is 1 and so not -1, yet the empty string is falsy and
  \<^verbatim>\<open>onVersionMismatch\<close> is not called.
\<close>

theorem versionListener_classifies_counterexample:
  "get_property (mismatch_message (js ''2.5.0'')) (js ''name'') =
     Inr (JString (js ''version-mismatch'')) \<and>
   get_property (mismatch_message (js ''2.5.0'')) (js ''version'') = Inr (JString (js ''2.5.0'')) \<and>
   fromVersion_of empty_till_config = JString (js ''2.0.0'') \<and>
   tillVersion_of empty_till_config = JString (js '''') \<and>
   compareVersion (JString (js ''2.5.0'')) (fromVersion_of empty_till_config) = Inr (Some 1) \<and>
   compareVersion (JString (js ''2.5.0'')) (tillVersion_of empty_till_config) = Inr (Some 1) \<and>
   claimed_neededVersion empty_till_config (JString (js ''2.5.0'')) = Some (JString (js '''')) \<and>
   versionListener empty_till_config (mismatch_message (js ''2.5.0'')) init = Inr init"
proof -
  have f: "fromVersion_of empty_till_config = JString (js ''2.0.0'')"
    and t: "tillVersion_of empty_till_config = JString (js '''')"
    by (simp_all add: fromVersion_of_def tillVersion_of_def empty_till_config_def element_def)
  have c: "claimed_neededVersion empty_till_config (JString (js ''2.5.0'')) =
      Some (JString (js ''''))"
    by (simp add: claimed_neededVersion_def f t sample_comparisons compare_with_empty)
  have "versionListener empty_till_config (mismatch_message (js ''2.5.0'')) init = Inr init"
    using versionListener_on_mismatch [OF mismatch_message_properties f, of "js ''2.5.0''" init]
    by (simp add: f t sample_comparisons sample_truthy)
  then show ?thesis
    using f t c by (simp add: mismatch_message_properties sample_comparisons compare_with_empty)
qed

text \<open>
  Claim C10. When a \<^verbatim>\<open>version-mismatch\<close> message reports a version below
  \<^verbatim>\<open>fromVersion\<close> and \<^verbatim>\<open>previousEmberVersionsSupported\<close> is empty,
  \<^verbatim>\<open>onVersionMismatch\<close> is still called, with \<^verbatim>\<open>undefined\<close>.
\<close>

theorem versionListener_empty_previous:
  assumes "get_property m (js ''name'') = Inr (JString (js ''version-mismatch''))"
    and "get_property m (js ''version'') = Inr (JString v)"
    and "fromVersion_of cfg = JString f"
    and "compareVersion (JString v) (JString f) = Inr (Some (- 1))"
    and "previousEmberVersionsSupported cfg = []"
  shows "versionListener cfg m a = Inr (onVersionMismatch JUndefined a) \<and>
         mismatches (trace (onVersionMismatch JUndefined a)) = mismatches (trace a) @ [JUndefined]"
  using versionListener_on_mismatch [OF assms(1-3), of a] assms(3-5)
  by (simp add: last_element_def onVersionMismatch_def record_event_def mismatches_append)

text \<open>The theorem of C10 at the version \<^verbatim>\<open>1.5.0\<close>, below the bound \<^verbatim>\<open>2.0.0\<close>.\<close>

theorem versionListener_empty_previous_witness:
  "get_property (mismatch_message (js ''1.5.0'')) (js ''name'') =
     Inr (JString (js ''version-mismatch'')) \<and>
   get_property (mismatch_message (js ''1.5.0'')) (js ''version'') = Inr (JString (js ''1.5.0'')) \<and>
   fromVersion_of no_previous_config = JString (js ''2.0.0'') \<and>
   compareVersion (JString (js ''1.5.0'')) (JString (js ''2.0.0'')) = Inr (Some (- 1)) \<and>
   previousEmberVersionsSupported no_previous_config = [] \<and>
   versionListener no_previous_config (mismatch_message (js ''1.5.0'')) init =
     Inr (onVersionMismatch JUndefined init) \<and>
   mismatches (trace (onVersionMismatch JUndefined init)) = [JUndefined]"
proof -
  have f: "fromVersion_of no_previous_config = JString (js ''2.0.0'')"
    by (simp add: fromVersion_of_def no_previous_config_def element_def)
  have p: "previousEmberVersionsSupported no_previous_config = []"
    by (simp add: no_previous_config_def)
  show ?thesis
    using versionListener_empty_previous [OF mismatch_message_properties f
        sample_comparisons(1) p, of init]
    by (simp add: f p init_state mismatch_message_properties sample_comparisons)
qed

text \<open>
  Claim C1, amended. \<^verbatim>\<open>_messageReceived\<close> calls the callbacks in the order of their
  registration until one throws. A callback is called when no callback before it throws
  on the message. If it throws, \<^verbatim>\<open>_messageReceived\<close> throws and the callbacks
  registered after it are not called; if neither it nor any later one throws, all of
  them are called.
\<close>

theorem messageReceived_exception_ends_dispatch:
  assumes "messageCallbacks a = pre @ c # post" and "\<forall>p\<in>set pre. \<not> raises cfg p m"
  shows "(raises cfg c m \<longrightarrow>
            threw (messageReceived cfg m a) \<and>
            invocations (trace (final (messageReceived cfg m a))) =
              invocations (trace a) @ map (\<lambda>p. (name_of p, m)) (pre @ [c])) \<and>
         (\<not> raises cfg c m \<and> (\<forall>p\<in>set post. \<not> raises cfg p m) \<longrightarrow>
            \<not> threw (messageReceived cfg m a) \<and>
            invocations (trace (final (messageReceived cfg m a))) =
              invocations (trace a) @ map (\<lambda>p. (name_of p, m)) (pre @ c # post))"
proof (intro conjI impI)
  assume r: "raises cfg c m"
  show "threw (messageReceived cfg m a)"
    using forEach_exception [OF assms(2) r, of post a] by (simp add: messageReceived_def assms(1))
  show "invocations (trace (final (messageReceived cfg m a))) =
      invocations (trace a) @ map (\<lambda>p. (name_of p, m)) (pre @ [c])"
    using forEach_exception [OF assms(2) r, of post a] by (simp add: messageReceived_def assms(1))
next
  assume n: "\<not> raises cfg c m \<and> (\<forall>p\<in>set post. \<not> raises cfg p m)"
  then have all: "\<forall>p\<in>set (messageCallbacks a). \<not> raises cfg p m"
    using assms by auto
  show "\<not> threw (messageReceived cfg m a)"
    using messageReceived_no_exception [OF all] by simp
  show "invocations (trace (final (messageReceived cfg m a))) =
      invocations (trace a) @ map (\<lambda>p. (name_of p, m)) (pre @ c # post)"
    using messageReceived_no_exception [OF all] by (simp add: assms(1))
qed

text \<open>
  The theorem of C1 at two lists of three callbacks: when the second one throws, the first
  two are called; when none throws, all three are.
\<close>

theorem messageReceived_exception_ends_dispatch_witness:
  "threw (messageReceived sample_config render_message
           \<lparr>messageCallbacks = [returning 5, throwing 2, returning 3], trace = []\<rparr>) \<and>
   invocations (trace (final (messageReceived sample_config render_message
           \<lparr>messageCallbacks = [returning 5, throwing 2, returning 3], trace = []\<rparr>))) =
     [(Ext 5, render_message), (Ext 2, render_message)] \<and>
   \<not> threw (messageReceived sample_config render_message
           \<lparr>messageCallbacks = [returning 5, returning 2, returning 3], trace = []\<rparr>) \<and>
   invocations (trace (final (messageReceived sample_config render_message
           \<lparr>messageCallbacks = [returning 5, returning 2, returning 3], trace = []\<rparr>))) =
     [(Ext 5, render_message), (Ext 2, render_message), (Ext 3, render_message)]"
proof -
  let ?a = "\<lparr>messageCallbacks = [returning 5, throwing 2, returning 3], trace = []\<rparr>"
  let ?b = "\<lparr>messageCallbacks = [returning 5, returning 2, returning 3], trace = []\<rparr>"
  have a: "messageCallbacks ?a = [returning 5] @ throwing 2 # [returning 3]" by simp
  have b: "messageCallbacks ?b = [returning 5] @ returning 2 # [returning 3]" by simp
  have p: "\<forall>p\<in>set [returning 5]. \<not> raises sample_config p render_message"
    by (simp add: raises_samples)
  show ?thesis
    using messageReceived_exception_ends_dispatch [OF a p]
      messageReceived_exception_ends_dispatch [OF b p]
    by (simp add: raises_samples name_of_samples)
qed

text \<open>
  C1 as first stated fails: when the first of two callbacks throws, the second one is
  not called.
\<close>

theorem messageReceived_exception_ends_dispatch_counterexample:
  "threw (messageReceived sample_config render_message
           \<lparr>messageCallbacks = [throwing 5, returning 2], trace = []\<rparr>) \<and>
   invocations (trace (final (messageReceived sample_config render_message
           \<lparr>messageCallbacks = [throwing 5, returning 2], trace = []\<rparr>))) =
     [(Ext 5, render_message)]"
  by (simp add: messageReceived_def call_def record_event_def final_def threw_def
      returning_def throwing_def)

text \<open>
  Claim C4, amended. \<^verbatim>\<open>onMessageReceived\<close> appends the callback, whether or not it
  is registered already, and nothing removes a callback: sending, the mismatch hook and
  a dispatch leave the list as it is. After a sequence of registrations, a dispatch on
  which no callback throws calls every registered occurrence once, in the order of
  registration.
\<close>

theorem callbacks_grow_and_dispatch_in_order:
  "messageCallbacks (onMessageReceived cb a) = messageCallbacks a @ [cb] \<and>
   messageCallbacks (fold onMessageReceived cbs a) = messageCallbacks a @ cbs \<and>
   messageCallbacks (sendMessage x a) = messageCallbacks a \<and>
   messageCallbacks (onVersionMismatch v a) = messageCallbacks a \<and>
   messageCallbacks (final (messageReceived cfg m a)) = messageCallbacks a \<and>
   ((\<forall>p\<in>set (messageCallbacks a @ cbs). \<not> raises cfg p m) \<longrightarrow>
      \<not> threw (messageReceived cfg m (fold onMessageReceived cbs a)) \<and>
      invocations (trace (final (messageReceived cfg m (fold onMessageReceived cbs a)))) =
        invocations (trace a) @ map (\<lambda>p. (name_of p, m)) (messageCallbacks a @ cbs))"
proof (intro conjI impI)
  show "messageCallbacks (onMessageReceived cb a) = messageCallbacks a @ [cb]"
    by (simp add: onMessageReceived_def record_event_def)
  show "messageCallbacks (fold onMessageReceived cbs a) = messageCallbacks a @ cbs"
    by (simp add: fold_onMessageReceived)
  show "messageCallbacks (sendMessage x a) = messageCallbacks a"
    by (simp add: sendMessage_def record_event_def)
  show "messageCallbacks (onVersionMismatch v a) = messageCallbacks a"
    by (simp add: onVersionMismatch_def record_event_def)
  show "messageCallbacks (final (messageReceived cfg m a)) = messageCallbacks a"
    by (simp add: messageReceived_def forEach_callbacks)
next
  let ?b = "fold onMessageReceived cbs a"
  assume "\<forall>p\<in>set (messageCallbacks a @ cbs). \<not> raises cfg p m"
  then have all: "\<forall>p\<in>set (messageCallbacks ?b). \<not> raises cfg p m"
    by (simp add: fold_onMessageReceived)
  show "\<not> threw (messageReceived cfg m ?b)"
    using messageReceived_no_exception [OF all] by simp
  show "invocations (trace (final (messageReceived cfg m ?b))) =
      invocations (trace a) @ map (\<lambda>p. (name_of p, m)) (messageCallbacks a @ cbs)"
    using messageReceived_no_exception [OF all] by (simp add: fold_onMessageReceived)
qed

text \<open>
  The theorem of C4 after \<^verbatim>\<open>init\<close> and three registrations, the third of a callback
  that is registered already: the dispatch calls the listener and then the three, the
  repeated one twice.
\<close>

theorem callbacks_grow_and_dispatch_in_order_witness:
  "\<not> raises sample_config VersionListener render_message \<and>
   \<not> raises sample_config (returning 5) render_message \<and>
   \<not> raises sample_config (returning 2) render_message \<and>
   messageCallbacks (fold onMessageReceived [returning 5, returning 2, returning 5] init) =
     [VersionListener, returning 5, returning 2, returning 5] \<and>
   \<not> threw (messageReceived sample_config render_message
              (fold onMessageReceived [returning 5, returning 2, returning 5] init)) \<and>
   invocations (trace (final (messageReceived sample_config render_message
              (fold onMessageReceived [returning 5, returning 2, returning 5] init)))) =
     [(Internal, render_message), (Ext 5, render_message), (Ext 2, render_message),
      (Ext 5, render_message)]"
proof -
  have h: "\<forall>p\<in>set (messageCallbacks init @ [returning 5, returning 2, returning 5]).
      \<not> raises sample_config p render_message"
    by (simp add: init_state raises_samples versionListener_not_raises [OF render_message_name])
  show ?thesis
    using callbacks_grow_and_dispatch_in_order
      [of "returning 5" init "[returning 5, returning 2, returning 5]" JNull JNull
          sample_config render_message] h
    by (simp add: init_state name_of_samples)
qed

text \<open>
  C4 as first stated fails when a callback throws: of the four callbacks registered, the
  listener and the first two of the environment are called, and the one registered after
  the throwing one is not.
\<close>

theorem callbacks_grow_and_dispatch_in_order_counterexample:
  "map name_of (messageCallbacks
      (fold onMessageReceived [returning 5, throwing 2, returning 3] init)) =
     [Internal, Ext 5, Ext 2, Ext 3] \<and>
   invocations (trace (final (messageReceived sample_config render_message
      (fold onMessageReceived [returning 5, throwing 2, returning 3] init)))) =
     [(Internal, render_message), (Ext 5, render_message), (Ext 2, render_message)]"
proof -
  let ?a = "fold onMessageReceived [returning 5, throwing 2, returning 3] init"
  have c: "messageCallbacks ?a = [VersionListener, returning 5] @ throwing 2 # [returning 3]"
    by (simp add: onMessageReceived_def record_event_def init_state)
  have i: "invocations (trace ?a) = []"
    by (simp add: onMessageReceived_def record_event_def init_state invocations_append)
  have p: "\<forall>p\<in>set [VersionListener, returning 5]. \<not> raises sample_config p render_message"
    by (simp add: raises_samples versionListener_not_raises [OF render_message_name])
  have "invocations (trace (final (forEach sample_config
           ([VersionListener, returning 5] @ throwing 2 # [returning 3]) render_message ?a))) =
        invocations (trace ?a) @
          map (\<lambda>p. (name_of p, render_message)) ([VersionListener, returning 5] @ [throwing 2])"
    using forEach_exception [OF p raises_samples(2)] by blast
  then have "invocations (trace (final (messageReceived sample_config render_message ?a))) =
      [(Internal, render_message), (Ext 5, render_message), (Ext 2, render_message)]"
    unfolding messageReceived_def c i by (simp add: name_of_samples)
  moreover have "map name_of (messageCallbacks ?a) = [Internal, Ext 5, Ext 2, Ext 3]"
    unfolding c by (simp add: name_of_samples)
  ultimately show ?thesis by blast
qed

text \<open>
  Claim C8, amended. A message on which no registered callback throws is passed to every
  registered callback, those of the environment included. The listener returns without
  any effect on a message that is neither \<^verbatim>\<open>undefined\<close> nor \<^verbatim>\<open>null\<close> and whose
  name is not \<^verbatim>\<open>version-mismatch\<close> (or is missing), and on no message with another
  name or none does it call \<^verbatim>\<open>onVersionMismatch\<close>.
\<close>

theorem messageReceived_passes_through:
  "((\<forall>p\<in>set (messageCallbacks a). \<not> raises cfg p m) \<longrightarrow>
      \<not> threw (messageReceived cfg m a) \<and>
      invocations (trace (final (messageReceived cfg m a))) =
        invocations (trace a) @ map (\<lambda>p. (name_of p, m)) (messageCallbacks a)) \<and>
   (m \<noteq> JUndefined \<and> m \<noteq> JNull \<and>
    get_property m (js ''name'') \<noteq> Inr (JString (js ''version-mismatch'')) \<longrightarrow>
      \<not> raises cfg VersionListener m \<and> versionListener cfg m a = Inr a) \<and>
   (get_property m (js ''name'') \<noteq> Inr (JString (js ''version-mismatch'')) \<longrightarrow>
      mismatches (trace (final (versionListener cfg m a))) = mismatches (trace a))"
proof (intro conjI impI)
  assume all: "\<forall>p\<in>set (messageCallbacks a). \<not> raises cfg p m"
  show "\<not> threw (messageReceived cfg m a)"
    using messageReceived_no_exception [OF all] by simp
  show "invocations (trace (final (messageReceived cfg m a))) =
      invocations (trace a) @ map (\<lambda>p. (name_of p, m)) (messageCallbacks a)"
    using messageReceived_no_exception [OF all] by simp
next
  assume n: "m \<noteq> JUndefined \<and> m \<noteq> JNull \<and>
    get_property m (js ''name'') \<noteq> Inr (JString (js ''version-mismatch''))"
  show "\<not> raises cfg VersionListener m"
    using n by (simp add: versionListener_not_raises)
  show "versionListener cfg m a = Inr a"
    using n by (simp add: versionListener_passes)
next
  assume "get_property m (js ''name'') \<noteq> Inr (JString (js ''version-mismatch''))"
  then show "mismatches (trace (final (versionListener cfg m a))) = mismatches (trace a)"
    by (simp add: versionListener_other_name)
qed

text \<open>
  The theorem of C8 at the message \<^verbatim>\<open>"ping"\<close>, a string, after \<^verbatim>\<open>init\<close> and one
  registration: the listener and the registered callback are called, and
  \<^verbatim>\<open>onVersionMismatch\<close> is not.
\<close>

theorem messageReceived_passes_through_witness:
  "\<not> raises sample_config VersionListener (JString (js ''ping'')) \<and>
   \<not> raises sample_config (returning 5) (JString (js ''ping'')) \<and>
   JString (js ''ping'') \<noteq> JUndefined \<and> JString (js ''ping'') \<noteq> JNull \<and>
   get_property (JString (js ''ping'')) (js ''name'') \<noteq>
     Inr (JString (js ''version-mismatch'')) \<and>
   \<not> threw (messageReceived sample_config (JString (js ''ping''))
              (onMessageReceived (returning 5) init)) \<and>
   invocations (trace (final (messageReceived sample_config (JString (js ''ping''))
              (onMessageReceived (returning 5) init)))) =
     [(Internal, JString (js ''ping'')), (Ext 5, JString (js ''ping''))] \<and>
   versionListener sample_config (JString (js ''ping'')) init = Inr init \<and>
   mismatches (trace (final (versionListener sample_config (JString (js ''ping'')) init))) = []"
proof -
  let ?a = "onMessageReceived (returning 5) init"
  let ?m = "JString (js ''ping'')"
  have n: "?m \<noteq> JUndefined" "?m \<noteq> JNull"
    "get_property ?m (js ''name'') \<noteq> Inr (JString (js ''version-mismatch''))"
    by (simp_all add: get_property_def)
  have c: "messageCallbacks ?a = [VersionListener, returning 5]"
    and i: "invocations (trace ?a) = []"
    by (simp_all add: onMessageReceived_def record_event_def init_state invocations_append)
  have h: "\<forall>p\<in>set (messageCallbacks ?a). \<not> raises sample_config p ?m"
    by (simp add: c raises_samples versionListener_not_raises [OF n])
  show ?thesis
    using messageReceived_passes_through [of ?a sample_config ?m]
      messageReceived_passes_through [of init sample_config ?m] h n
    by (simp add: c i init_state name_of_samples final_def)
qed

text \<open>
  C8 as first stated fails on a \<^verbatim>\<open>version-mismatch\<close> message without a version: the
  listener, registered first, throws a TypeError in \<^verbatim>\<open>cleanupVersion\<close>, and the
  callback of the environment registered after it does not receive the message.
\<close>

theorem messageReceived_passes_through_counterexample:
  "messageCallbacks (onMessageReceived (returning 5) init) = [VersionListener, returning 5] \<and>
   threw (messageReceived sample_config incomplete_mismatch_message
           (onMessageReceived (returning 5) init)) \<and>
   invocations (trace (final (messageReceived sample_config incomplete_mismatch_message
           (onMessageReceived (returning 5) init)))) =
     [(Internal, incomplete_mismatch_message)]"
proof -
  let ?a = "onMessageReceived (returning 5) init"
  have c: "messageCallbacks ?a = [] @ VersionListener # [returning 5]"
    and i: "invocations (trace ?a) = []"
    by (simp_all add: onMessageReceived_def record_event_def init_state invocations_append)
  have r: "raises sample_config VersionListener incomplete_mismatch_message"
    by (simp add: raises_def call_def threw_def versionListener_def neededVersion_def
        get_property_def incomplete_mismatch_message_def js_def compareVersion_def
        cleanupVersion_def)
  have "threw (forEach sample_config ([] @ VersionListener # [returning 5])
                 incomplete_mismatch_message ?a) \<and>
        invocations (trace (final (forEach sample_config ([] @ VersionListener # [returning 5])
                 incomplete_mismatch_message ?a))) =
        invocations (trace ?a) @
          map (\<lambda>p. (name_of p, incomplete_mismatch_message)) ([] @ [VersionListener])"
    by (rule forEach_exception [OF _ r]) simp
  then show ?thesis
    using c by (simp add: messageReceived_def i)
qed

end
